theory Spec2Isabelle
  imports Main "HOL-Library.Multiset" "HOL-Library.AList" "HOL-Library.Word"
begin

unbundle bit_operations_syntax

section \<open>The heap of reference values\<close>

text \<open>
  Go maps, pointers and interface values are references. A field of such a type holds
  an address (\<open>None\<close> is \<open>nil\<close>); the objects live in a heap, a list indexed by address.
  Allocation appends, so a fresh address is the length of the heap before the
  allocation. A slice stored inside a map (\<open>[]string\<close>) is kept by value.
\<close>

type_synonym addr = nat

text \<open>One \<open>char\<close> is one byte, so \<open>length\<close> is Go's \<open>len\<close> on strings and byte slices.\<close>

type_synonym bytes = string

text \<open>Values of type \<open>interface{}\<close> that the free-form maps carry.\<close>

datatype iface =
    VNil
  | VBool bool
  | VInt int
  | VStr string
  | VList "iface list"
  | VMap "(string \<times> iface) list"

datatype obj =
    URLObj string
      \<comment> \<open>a \<open>url.URL\<close>, kept as its string form\<close>
  | ValuesObj "(string \<times> string list) list"
      \<comment> \<open>\<open>map[string][]string\<close>: request headers, \<open>url.Values\<close>, response headers\<close>
  | ParamsObj "(string \<times> string) list"
      \<comment> \<open>\<open>map[string]string\<close>\<close>
  | AnyMapObj "(string \<times> iface) list"
      \<comment> \<open>\<open>map[string]interface{}\<close>\<close>
  | DataObj "(string \<times> (string \<times> iface) list list) list"
      \<comment> \<open>\<open>map[string][]map[string]interface{}\<close>\<close>
  | ReaderObj bytes bool "nat option"
      \<comment> \<open>an \<open>io.ReadCloser\<close> that can be closed: the bytes not read yet, whether it was
         closed, and, when its source breaks, after how many more bytes (\<open>None\<close>: it can
         be read to its end)\<close>
  | NopCloserObj bytes
      \<comment> \<open>an \<open>io.NopCloser\<close> over a reader in memory: the bytes not read yet\<close>

definition alloc :: "obj list \<Rightarrow> obj \<Rightarrow> addr \<times> obj list" where
  "alloc h v = (length h, h @ [v])"

definition deref :: "obj list \<Rightarrow> addr \<Rightarrow> obj option" where
  "deref h a = (if a < length h then Some (h ! a) else None)"

text \<open>
  Reading a map through a reference. Reading a \<open>nil\<close> map yields no entry, as in Go. An
  address that holds no map of the expected type cannot occur in Go; it reads as empty.
\<close>

definition get_values :: "obj list \<Rightarrow> addr option \<Rightarrow> (string \<times> string list) list" where
  "get_values h r =
     (case r of
        None \<Rightarrow> []
      | Some a \<Rightarrow> (case deref h a of Some (ValuesObj m) \<Rightarrow> m | _ \<Rightarrow> []))"

definition get_params :: "obj list \<Rightarrow> addr option \<Rightarrow> (string \<times> string) list" where
  "get_params h r =
     (case r of
        None \<Rightarrow> []
      | Some a \<Rightarrow> (case deref h a of Some (ParamsObj m) \<Rightarrow> m | _ \<Rightarrow> []))"

definition get_anymap :: "obj list \<Rightarrow> addr option \<Rightarrow> (string \<times> iface) list" where
  "get_anymap h r =
     (case r of
        None \<Rightarrow> []
      | Some a \<Rightarrow> (case deref h a of Some (AnyMapObj m) \<Rightarrow> m | _ \<Rightarrow> []))"

text \<open>The Go statement \<open>m[k] = v\<close> on a non-nil map at address \<open>a\<close>.\<close>

definition put_values :: "obj list \<Rightarrow> addr \<Rightarrow> string \<Rightarrow> string list \<Rightarrow> obj list" where
  "put_values h a k vs =
     (case deref h a of
        Some (ValuesObj m) \<Rightarrow> h[a := ValuesObj (AList.update k vs m)]
      | _ \<Rightarrow> h)"

definition put_params :: "obj list \<Rightarrow> addr \<Rightarrow> string \<Rightarrow> string \<Rightarrow> obj list" where
  "put_params h a k v =
     (case deref h a of
        Some (ParamsObj m) \<Rightarrow> h[a := ParamsObj (AList.update k v m)]
      | _ \<Rightarrow> h)"

section \<open>Requests and responses (package proxy)\<close>

record Request =
  Method :: string
  URL :: "addr option"
  Query :: "addr option"
  Path :: string
  Body :: "addr option"
  Params :: "addr option"
  Headers :: "addr option"
  Data :: "addr option"
  Private :: "addr option"
  Reserved :: "addr option"
  RemoteAddr :: string
  ContentLength :: int

text \<open>
  Modelled from the spec: the declarations of \<open>proxy.Response\<close> and \<open>proxy.Metadata\<close>
  are not among the sources. The response envelope accumulates a status code, headers
  and a result payload keyed by field name, and carries a "complete" flag; the field
  names are those the closure of \<open>New\<close> and \<open>Response.Write\<close> use.
\<close>

record Metadata =
  Headers_md :: "addr option"
  StatusCode :: int

record Response =
  Data_resp :: "addr option"
  IsComplete :: bool
  Metadata :: Metadata

section \<open>Plugins and the pipeline (package vicg)\<close>

text \<open>
  What a plugin can read and change while it handles a message: the heap, the rest of
  the program's state (\<open>world\<close>: the plugin's own fields, the infrastructure object),
  the clock in nanoseconds, and the request and the response it receives by pointer.
\<close>

record 'w env =
  heap :: "obj list"
  world :: 'w
  now :: int

record 'w pstate = "'w env" +
  request :: Request
  response :: Response

text \<open>
  The interface \<open>VicgPlugin\<close>: an object with two methods. An \<open>error\<close> is its message,
  \<open>None\<close> is the \<open>nil\<close> error.
\<close>

record ('c, 'w) VicgPlugin =
  Priority :: int
  HandleHTTPMessage :: "'c \<Rightarrow> 'w pstate \<Rightarrow> string option \<times> 'w pstate"

text \<open>The two messages the executor sends to its logger, by their arguments.\<close>

datatype log_record =
    PluginError int string
      \<comment> \<open>\<open>"plugin index %d: %s"\<close>: priority, error message\<close>
  | SlowPlugin int int string string
      \<comment> \<open>\<open>"The '%d' plugin cost %v on %s '%s'."\<close>: priority, span, method, path\<close>

text \<open>
  The outcome of one execution: the error returned, the state at return (its \<open>response\<close>
  is the response returned), the plugins whose \<open>HandleHTTPMessage\<close> was called, in call
  order, and the records logged.
\<close>

record ('c, 'w) outcome =
  err :: "string option"
  final :: "'w pstate"
  calls :: "('c, 'w) VicgPlugin list"
  logged :: "log_record list"

definition Second :: int where
  "Second = 1000000000"

definition sec :: int where
  "sec = 5 * Second"

text \<open>The \<open>for _, p := range plugins\<close> loop of the closure returned by \<open>New\<close>.\<close>

fun run_plugins :: "'c \<Rightarrow> ('c, 'w) VicgPlugin list \<Rightarrow> 'w pstate \<Rightarrow> ('c, 'w) outcome" where
  "run_plugins ctx [] s = \<lparr>err = None, final = s, calls = [], logged = []\<rparr>"
| "run_plugins ctx (p # ps) s =
     (let tick = now s in
      case HandleHTTPMessage p ctx s of
        (Some m, s') \<Rightarrow>
          \<lparr>err = Some m, final = s', calls = [p], logged = [PluginError (Priority p) m]\<rparr>
      | (None, s') \<Rightarrow>
          (let span = now s' - tick;
               slow = (if span > sec
                       then [SlowPlugin (Priority p) span (Method (request s')) (Path (request s'))]
                       else []);
               r = run_plugins ctx ps s'
           in r\<lparr>calls := p # calls r, logged := slow @ logged r\<rparr>))"

text \<open>The composite literal \<open>&proxy.Response{...}\<close> at the head of the closure.\<close>

definition new_Response :: "obj list \<Rightarrow> Response \<times> obj list" where
  "new_Response h =
     (let (d, h1) = alloc h (AnyMapObj []);
          (hs, h2) = alloc h1 (ValuesObj [(''Content-Type'', [''application/VIID+JSON''])])
      in (\<lparr>Data_resp = Some d, IsComplete = True,
           Metadata = \<lparr>Headers_md = Some hs, StatusCode = 200\<rparr>\<rparr>, h2))"

definition start_state :: "Request \<Rightarrow> 'w env \<Rightarrow> 'w pstate" where
  "start_state req e =
     (let (resp, h') = new_Response (heap e)
      in \<lparr>heap = h', world = world e, now = now e, request = req, response = resp\<rparr>)"

text \<open>The closure itself: \<open>func(ctx, request) (*proxy.Response, error)\<close>.\<close>

definition pipeline ::
  "('c, 'w) VicgPlugin list \<Rightarrow> 'c \<Rightarrow> Request \<Rightarrow> 'w env \<Rightarrow> ('c, 'w) outcome" where
  "pipeline plugins ctx req e = run_plugins ctx plugins (start_state req e)"

text \<open>
  The state after the plugins of a list have run one after the other, whatever they
  returned, and whether each of them, called in its turn, returns the nil error.
\<close>

definition effects :: "'c \<Rightarrow> ('c, 'w) VicgPlugin list \<Rightarrow> 'w pstate \<Rightarrow> 'w pstate" where
  "effects ctx ps s = fold (\<lambda>p s. snd (HandleHTTPMessage p ctx s)) ps s"

fun all_ok :: "'c \<Rightarrow> ('c, 'w) VicgPlugin list \<Rightarrow> 'w pstate \<Rightarrow> bool" where
  "all_ok ctx [] s = True"
| "all_ok ctx (p # ps) s =
     (case HandleHTTPMessage p ctx s of
        (None, s') \<Rightarrow> all_ok ctx ps s'
      | (Some m, s') \<Rightarrow> False)"

subsection \<open>Building the pipeline\<close>

text \<open>
  Modelled from the spec: the declarations of \<open>config.PluginConfig\<close> and
  \<open>config.EndpointConfig\<close> are not among the sources. A plugin declaration has a name
  and a priority (\<open>cfg.Name\<close> and \<open>cfg.Index\<close> in the code; its free-form configuration
  is read by no code here), and an endpoint owns the ordered list of its declarations
  (\<open>cfg.Plugins\<close>).
\<close>

record PluginConfig =
  Name :: string
  Index :: int

record EndpointConfig =
  Plugins :: "PluginConfig list"

text \<open>
  The interface \<open>VicgPluginFactory\<close>: its method \<open>New\<close> returns a plugin or an error
  (\<open>Inl\<close>). The factory's logger is not a field here: what it receives is the \<open>logged\<close>
  part of an outcome.
\<close>

type_synonym ('c, 'w, 'i) VicgPluginFactory =
  "PluginConfig \<Rightarrow> 'i \<Rightarrow> string + ('c, 'w) VicgPlugin"

record ('c, 'w, 'i) defaultVicgFactory =
  pluginFactory :: "string \<rightharpoonup> ('c, 'w, 'i) VicgPluginFactory"

definition getPluginFactory ::
  "('c, 'w, 'i) defaultVicgFactory \<Rightarrow> string \<Rightarrow> string + ('c, 'w, 'i) VicgPluginFactory" where
  "getPluginFactory pf namespace =
     (case pluginFactory pf namespace of
        Some f \<Rightarrow> Inr f
      | None \<Rightarrow> Inl (''the plugin '' @ [CHR 0x27] @ namespace @ [CHR 0x27] @ '' not found''))"

definition createNewPlugin ::
  "('c, 'w, 'i) defaultVicgFactory \<Rightarrow> PluginConfig \<Rightarrow> 'i \<Rightarrow> string + ('c, 'w) VicgPlugin" where
  "createNewPlugin pf cfg ifr =
     (case getPluginFactory pf (Name cfg) of
        Inl e \<Rightarrow> Inl e
      | Inr f \<Rightarrow> f cfg ifr)"

text \<open>The loop of \<open>New\<close> that fills \<open>plugins\<close>, returning at the first error.\<close>

fun create_plugins ::
  "('c, 'w, 'i) defaultVicgFactory \<Rightarrow> PluginConfig list \<Rightarrow> 'i \<Rightarrow> string + ('c, 'w) VicgPlugin list" where
  "create_plugins pf [] ifr = Inr []"
| "create_plugins pf (c # cs) ifr =
     (case createNewPlugin pf c ifr of
        Inl e \<Rightarrow> Inl e
      | Inr p \<Rightarrow>
          (case create_plugins pf cs ifr of
             Inl e \<Rightarrow> Inl e
           | Inr ps \<Rightarrow> Inr (p # ps)))"

text \<open>
  \<open>sort.Slice\<close> belongs to Go's standard library, so \<open>New\<close> takes it as a parameter
  \<open>srt\<close>, called with the closure \<open>less\<close> and the slice. What the library promises for a
  \<open>less\<close> that compares keys: the result is a rearrangement of the slice in which the
  keys do not decrease. It promises no more: "The sort is not guaranteed to be stable".
\<close>

definition sort_Slice_spec :: "(('a \<Rightarrow> 'a \<Rightarrow> bool) \<Rightarrow> 'a list \<Rightarrow> 'a list) \<Rightarrow> bool" where
  "sort_Slice_spec srt \<longleftrightarrow>
     (\<forall>(key :: 'a \<Rightarrow> int) xs.
        mset (srt (\<lambda>a b. key a < key b) xs) = mset xs
      \<and> sorted (map key (srt (\<lambda>a b. key a < key b) xs)))"

text \<open>\<open>New\<close> up to the sorted slice that the closure captures, and \<open>New\<close> itself.\<close>

definition New_plugins ::
  "((('c, 'w) VicgPlugin \<Rightarrow> ('c, 'w) VicgPlugin \<Rightarrow> bool)
      \<Rightarrow> ('c, 'w) VicgPlugin list \<Rightarrow> ('c, 'w) VicgPlugin list)
   \<Rightarrow> ('c, 'w, 'i) defaultVicgFactory \<Rightarrow> EndpointConfig \<Rightarrow> 'i
   \<Rightarrow> string + ('c, 'w) VicgPlugin list" where
  "New_plugins srt pf cfg ifr =
     (case create_plugins pf (Plugins cfg) ifr of
        Inl e \<Rightarrow> Inl e
      | Inr plugins \<Rightarrow> Inr (srt (\<lambda>p q. Priority p < Priority q) plugins))"

definition New ::
  "((('c, 'w) VicgPlugin \<Rightarrow> ('c, 'w) VicgPlugin \<Rightarrow> bool)
      \<Rightarrow> ('c, 'w) VicgPlugin list \<Rightarrow> ('c, 'w) VicgPlugin list)
   \<Rightarrow> ('c, 'w, 'i) defaultVicgFactory \<Rightarrow> EndpointConfig \<Rightarrow> 'i
   \<Rightarrow> string + ('c \<Rightarrow> Request \<Rightarrow> 'w env \<Rightarrow> ('c, 'w) outcome)" where
  "New srt pf cfg ifr =
     (case New_plugins srt pf cfg ifr of
        Inl e \<Rightarrow> Inl e
      | Inr plugins \<Rightarrow> Inr (pipeline plugins))"

text \<open>
  \<open>sort.Slice\<close> as the library runs it since Go 1.19 (\<open>sort/slice.go\<close> and
  \<open>sort/zsortfunc.go\<close>): pattern-defeating quicksort on the index range \<open>[a, b)\<close> of the
  slice, with insertion sort on ranges of at most twelve elements and heap sort once the
  depth limit is used up. \<open>data.Less(i, j)\<close> is \<open>lt (xs ! i) (xs ! j)\<close> for the closure
  \<open>less\<close> of \<open>New\<close>, which compares the elements the slice holds at the time of the call;
  \<open>data.Swap(i, j)\<close> is \<open>swap xs i j\<close>. Indices are naturals: every index the code
  computes for a range with \<open>a < b\<close> is at least \<open>a\<close>, and where the code would step below
  index 0 the loop guard has already failed.
\<close>

definition swap :: "'a list \<Rightarrow> nat \<Rightarrow> nat \<Rightarrow> 'a list" where
  "swap xs i j = xs[i := xs ! j, j := xs ! i]"

text \<open>\<open>for j := i; j > a && data.Less(j, j-1); j-- { data.Swap(j, j-1) }\<close>\<close>

fun sink_to :: "nat \<Rightarrow> ('a \<Rightarrow> 'a \<Rightarrow> bool) \<Rightarrow> 'a list \<Rightarrow> nat \<Rightarrow> 'a list" where
  "sink_to a lt xs 0 = xs"
| "sink_to a lt xs (Suc j) =
     (if a < Suc j \<and> lt (xs ! Suc j) (xs ! j) then sink_to a lt (swap xs (Suc j) j) j else xs)"

text \<open>\<open>for i := a + 1; i < b; i++ { ... }\<close> around that loop.\<close>

definition insertionSort_func :: "('a \<Rightarrow> 'a \<Rightarrow> bool) \<Rightarrow> 'a list \<Rightarrow> nat \<Rightarrow> nat \<Rightarrow> 'a list" where
  "insertionSort_func lt xs a b = fold (\<lambda>i ys. sink_to a lt ys i) [Suc a..<b] xs"

function siftDown_func ::
  "('a \<Rightarrow> 'a \<Rightarrow> bool) \<Rightarrow> 'a list \<Rightarrow> nat \<Rightarrow> nat \<Rightarrow> nat \<Rightarrow> 'a list" where
  "siftDown_func lt xs root hi first =
     (let child = 2 * root + 1 in
      if child \<ge> hi then xs
      else
        (let child = (if child + 1 < hi \<and> lt (xs ! (first + child)) (xs ! (first + child + 1))
                      then child + 1 else child)
         in if \<not> lt (xs ! (first + root)) (xs ! (first + child)) then xs
            else siftDown_func lt (swap xs (first + root) (first + child)) child hi first))"
  by pat_completeness auto
termination
  by (relation "measure (\<lambda>(lt, xs, root, hi, first). hi - root)") (auto simp: Let_def)

declare siftDown_func.simps [simp del]

text \<open>
  The two loops of \<open>heapSort_func\<close> count \<open>i\<close> down to 0: from \<open>(hi - 1) / 2\<close> to build the
  heap, from \<open>hi - 1\<close> to pop its greatest element to the end.
\<close>

definition heapSort_func :: "('a \<Rightarrow> 'a \<Rightarrow> bool) \<Rightarrow> 'a list \<Rightarrow> nat \<Rightarrow> nat \<Rightarrow> 'a list" where
  "heapSort_func lt xs a b =
     (let first = a; lo = 0; hi = b - a;
          xs = fold (\<lambda>i ys. siftDown_func lt ys i hi first) (rev [0..<Suc ((hi - 1) div 2)]) xs
      in fold (\<lambda>i ys. siftDown_func lt (swap ys first (first + i)) lo i first) (rev [0..<hi]) xs)"

text \<open>\<open>bits.Len\<close>: the number of bits needed to write \<open>n\<close>.\<close>

fun bits_Len :: "nat \<Rightarrow> nat" where
  "bits_Len n = (if n = 0 then 0 else Suc (bits_Len (n div 2)))"

definition nextPowerOfTwo :: "nat \<Rightarrow> 64 word" where
  "nextPowerOfTwo n = push_bit (bits_Len n) 1"

text \<open>
  \<open>breakPatterns_func\<close> swaps three elements around the middle of the range with
  pseudo-randomly chosen ones. The generator is a 64-bit state seeded with the length of
  the range; its step \<open>random.Next()\<close> (an xorshift, internal to the library) is the
  parameter \<open>rnd\<close>.
\<close>

fun breakPatterns_loop ::
  "(64 word \<Rightarrow> 64 word) \<Rightarrow> 'a list \<Rightarrow> nat \<Rightarrow> nat \<Rightarrow> nat \<Rightarrow> 64 word \<Rightarrow> 64 word \<Rightarrow> nat list \<Rightarrow> 'a list" where
  "breakPatterns_loop rnd xs a n idx modulus random [] = xs"
| "breakPatterns_loop rnd xs a n idx modulus random (i # is) =
     (let random = rnd random;
          other = unat (random AND (modulus - 1));
          other = (if other \<ge> n then other - n else other)
      in breakPatterns_loop rnd (swap xs (idx - 1 + i) (a + other)) a n idx modulus random is)"

definition breakPatterns_func ::
  "(64 word \<Rightarrow> 64 word) \<Rightarrow> 'a list \<Rightarrow> nat \<Rightarrow> nat \<Rightarrow> 'a list" where
  "breakPatterns_func rnd xs a b =
     (let n = b - a in
      if n \<ge> 8
      then breakPatterns_loop rnd xs a n (a + (n div 4) * 2 - 1)
             (nextPowerOfTwo n) (of_nat n) [0, 1, 2]
      else xs)"

datatype sortedHint = unknownHint | increasingHint | decreasingHint

text \<open>The counter \<open>*swaps\<close> is passed in and returned.\<close>

definition order2_func ::
  "('a \<Rightarrow> 'a \<Rightarrow> bool) \<Rightarrow> 'a list \<Rightarrow> nat \<Rightarrow> nat \<Rightarrow> nat \<Rightarrow> nat \<times> nat \<times> nat" where
  "order2_func lt xs a b swaps =
     (if lt (xs ! b) (xs ! a) then (b, a, swaps + 1) else (a, b, swaps))"

definition median_func ::
  "('a \<Rightarrow> 'a \<Rightarrow> bool) \<Rightarrow> 'a list \<Rightarrow> nat \<Rightarrow> nat \<Rightarrow> nat \<Rightarrow> nat \<Rightarrow> nat \<times> nat" where
  "median_func lt xs a b c swaps =
     (let (a, b, swaps) = order2_func lt xs a b swaps;
          (b, c, swaps) = order2_func lt xs b c swaps;
          (a, b, swaps) = order2_func lt xs a b swaps
      in (b, swaps))"

definition medianAdjacent_func ::
  "('a \<Rightarrow> 'a \<Rightarrow> bool) \<Rightarrow> 'a list \<Rightarrow> nat \<Rightarrow> nat \<Rightarrow> nat \<times> nat" where
  "medianAdjacent_func lt xs a swaps = median_func lt xs (a - 1) a (a + 1) swaps"

definition choosePivot_func ::
  "('a \<Rightarrow> 'a \<Rightarrow> bool) \<Rightarrow> 'a list \<Rightarrow> nat \<Rightarrow> nat \<Rightarrow> nat \<times> sortedHint" where
  "choosePivot_func lt xs a b =
     (let l = b - a;
          swaps = 0;
          i = a + l div 4 * 1;
          j = a + l div 4 * 2;
          k = a + l div 4 * 3;
          (j, swaps) =
            (if l \<ge> 8
             then (let (i, j, k, swaps) =
                         (if l \<ge> 50
                          then (let (i, swaps) = medianAdjacent_func lt xs i swaps;
                                    (j, swaps) = medianAdjacent_func lt xs j swaps;
                                    (k, swaps) = medianAdjacent_func lt xs k swaps
                                in (i, j, k, swaps))
                          else (i, j, k, swaps))
                   in median_func lt xs i j k swaps)
             else (j, swaps))
      in if swaps = 0 then (j, increasingHint)
         else if swaps = 4 * 3 then (j, decreasingHint)
         else (j, unknownHint))"

text \<open>\<open>for i < j { data.Swap(i, j); i++; j-- }\<close>, started at \<open>a\<close> and \<open>b - 1\<close>.\<close>

function reverse_loop :: "'a list \<Rightarrow> nat \<Rightarrow> nat \<Rightarrow> 'a list" where
  "reverse_loop xs i j = (if i < j then reverse_loop (swap xs i j) (i + 1) (j - 1) else xs)"
  by pat_completeness auto
termination
  by (relation "measure (\<lambda>(xs, i, j). j - i)") auto

declare reverse_loop.simps [simp del]

definition reverseRange_func :: "'a list \<Rightarrow> nat \<Rightarrow> nat \<Rightarrow> 'a list" where
  "reverseRange_func xs a b = reverse_loop xs a (b - 1)"

text \<open>\<open>for i < b && !data.Less(i, i-1) { i++ }\<close>\<close>

function skip_ordered :: "('a \<Rightarrow> 'a \<Rightarrow> bool) \<Rightarrow> 'a list \<Rightarrow> nat \<Rightarrow> nat \<Rightarrow> nat" where
  "skip_ordered lt xs i b =
     (if i < b \<and> \<not> lt (xs ! i) (xs ! (i - 1)) then skip_ordered lt xs (i + 1) b else i)"
  by pat_completeness auto
termination
  by (relation "measure (\<lambda>(lt, xs, i, b). b - i)") auto

declare skip_ordered.simps [simp del]

text \<open>\<open>for j := i + 1; j < b; j++ { if !data.Less(j, j-1) { break }; data.Swap(j, j-1) }\<close>\<close>

function shift_right :: "('a \<Rightarrow> 'a \<Rightarrow> bool) \<Rightarrow> 'a list \<Rightarrow> nat \<Rightarrow> nat \<Rightarrow> 'a list" where
  "shift_right lt xs j b =
     (if j < b
      then (if \<not> lt (xs ! j) (xs ! (j - 1)) then xs
            else shift_right lt (swap xs j (j - 1)) (j + 1) b)
      else xs)"
  by pat_completeness auto
termination
  by (relation "measure (\<lambda>(lt, xs, j, b). b - j)") auto

declare shift_right.simps [simp del]

text \<open>
  The loop of \<open>partialInsertionSort_func\<close>, with the number of steps that remain of its
  \<open>maxSteps = 5\<close>. The shift to the left is the loop
  \<open>for j := i - 1; j >= 1; j-- { if !data.Less(j, j-1) { break }; data.Swap(j, j-1) }\<close>,
  which is \<open>sink_to 0\<close>.
\<close>

fun partialInsertionSort_loop ::
  "('a \<Rightarrow> 'a \<Rightarrow> bool) \<Rightarrow> 'a list \<Rightarrow> nat \<Rightarrow> nat \<Rightarrow> nat \<Rightarrow> nat \<Rightarrow> 'a list \<times> bool" where
  "partialInsertionSort_loop lt xs a b i 0 = (xs, False)"
| "partialInsertionSort_loop lt xs a b i (Suc steps) =
     (let i = skip_ordered lt xs i b in
      if i = b then (xs, True)
      else if b - a < 50 then (xs, False)
      else
        (let xs = swap xs i (i - 1);
             xs = (if i - a \<ge> 2 then sink_to 0 lt xs (i - 1) else xs);
             xs = (if b - i \<ge> 2 then shift_right lt xs (i + 1) b else xs)
         in partialInsertionSort_loop lt xs a b i steps))"

definition partialInsertionSort_func ::
  "('a \<Rightarrow> 'a \<Rightarrow> bool) \<Rightarrow> 'a list \<Rightarrow> nat \<Rightarrow> nat \<Rightarrow> 'a list \<times> bool" where
  "partialInsertionSort_func lt xs a b = partialInsertionSort_loop lt xs a b (a + 1) 5"

text \<open>\<open>for i <= j && data.Less(i, a) { i++ }\<close>\<close>

function scan_less :: "('a \<Rightarrow> 'a \<Rightarrow> bool) \<Rightarrow> 'a list \<Rightarrow> nat \<Rightarrow> nat \<Rightarrow> nat \<Rightarrow> nat" where
  "scan_less lt xs a i j =
     (if i \<le> j \<and> lt (xs ! i) (xs ! a) then scan_less lt xs a (i + 1) j else i)"
  by pat_completeness auto
termination
  by (relation "measure (\<lambda>(lt, xs, a, i, j). Suc j - i)") auto

declare scan_less.simps [simp del]

text \<open>
  \<open>for i <= j && !data.Less(j, a) { j-- }\<close>. The code calls it with \<open>i > a\<close>, so the
  guard fails before \<open>j\<close> would pass below 0.
\<close>

fun scan_not_less :: "('a \<Rightarrow> 'a \<Rightarrow> bool) \<Rightarrow> 'a list \<Rightarrow> nat \<Rightarrow> nat \<Rightarrow> nat \<Rightarrow> nat" where
  "scan_not_less lt xs a i 0 = 0"
| "scan_not_less lt xs a i (Suc j) =
     (if i \<le> Suc j \<and> \<not> lt (xs ! Suc j) (xs ! a) then scan_not_less lt xs a i j else Suc j)"

text \<open>The \<open>for { ... }\<close> loop of \<open>partition_func\<close>; it returns the slice and \<open>j\<close>.\<close>

function partition_loop ::
  "('a \<Rightarrow> 'a \<Rightarrow> bool) \<Rightarrow> 'a list \<Rightarrow> nat \<Rightarrow> nat \<Rightarrow> nat \<Rightarrow> 'a list \<times> nat" where
  "partition_loop lt xs a i j =
     (let i' = scan_less lt xs a i j;
          j' = scan_not_less lt xs a i' j
      in if i' > j' then (xs, j')
         else partition_loop lt (swap xs i' j') a (i' + 1) (j' - 1))"
  by pat_completeness auto
termination
proof (relation "measure (\<lambda>(lt, xs, a, i, j). Suc j - i)", goal_cases)
  case 1
  show ?case by simp
next
  case (2 lt xs a i j i' j')
  have "i \<le> scan_less lt xs a i j"
  proof (induction lt xs a i j rule: scan_less.induct)
    case (1 lt xs a i j)
    show ?case
    proof (cases "i \<le> j \<and> lt (xs ! i) (xs ! a)")
      case True
      with 1 have "i + 1 \<le> scan_less lt xs a (i + 1) j" by blast
      with True show ?thesis by (subst scan_less.simps) simp
    next
      case False
      then show ?thesis by (subst scan_less.simps) auto
    qed
  qed
  moreover have "scan_not_less lt xs a i' j \<le> j"
    by (induction j) auto
  ultimately show ?case using 2 by auto
qed

declare partition_loop.simps [simp del]

text \<open>\<open>partition_func\<close> returns the slice, the new index of the pivot and \<open>alreadyPartitioned\<close>.\<close>

definition partition_func ::
  "('a \<Rightarrow> 'a \<Rightarrow> bool) \<Rightarrow> 'a list \<Rightarrow> nat \<Rightarrow> nat \<Rightarrow> nat \<Rightarrow> 'a list \<times> nat \<times> bool" where
  "partition_func lt xs a b pivot =
     (let xs = swap xs a pivot;
          i = a + 1; j = b - 1;
          i = scan_less lt xs a i j;
          j = scan_not_less lt xs a i j
      in if i > j then (swap xs j a, j, True)
         else
           (let xs = swap xs i j;
                (xs, j) = partition_loop lt xs a (i + 1) (j - 1)
            in (swap xs j a, j, False)))"

text \<open>\<open>for i <= j && !data.Less(a, i) { i++ }\<close>\<close>

function scan_not_greater :: "('a \<Rightarrow> 'a \<Rightarrow> bool) \<Rightarrow> 'a list \<Rightarrow> nat \<Rightarrow> nat \<Rightarrow> nat \<Rightarrow> nat" where
  "scan_not_greater lt xs a i j =
     (if i \<le> j \<and> \<not> lt (xs ! a) (xs ! i) then scan_not_greater lt xs a (i + 1) j else i)"
  by pat_completeness auto
termination
  by (relation "measure (\<lambda>(lt, xs, a, i, j). Suc j - i)") auto

declare scan_not_greater.simps [simp del]

text \<open>\<open>for i <= j && data.Less(a, j) { j-- }\<close>\<close>

fun scan_greater :: "('a \<Rightarrow> 'a \<Rightarrow> bool) \<Rightarrow> 'a list \<Rightarrow> nat \<Rightarrow> nat \<Rightarrow> nat \<Rightarrow> nat" where
  "scan_greater lt xs a i 0 = 0"
| "scan_greater lt xs a i (Suc j) =
     (if i \<le> Suc j \<and> lt (xs ! a) (xs ! Suc j) then scan_greater lt xs a i j else Suc j)"

text \<open>The loop of \<open>partitionEqual_func\<close>; it returns the slice and \<open>i\<close>.\<close>

function partitionEqual_loop ::
  "('a \<Rightarrow> 'a \<Rightarrow> bool) \<Rightarrow> 'a list \<Rightarrow> nat \<Rightarrow> nat \<Rightarrow> nat \<Rightarrow> 'a list \<times> nat" where
  "partitionEqual_loop lt xs a i j =
     (let i' = scan_not_greater lt xs a i j;
          j' = scan_greater lt xs a i' j
      in if i' > j' then (xs, i')
         else partitionEqual_loop lt (swap xs i' j') a (i' + 1) (j' - 1))"
  by pat_completeness auto
termination
proof (relation "measure (\<lambda>(lt, xs, a, i, j). Suc j - i)", goal_cases)
  case 1
  show ?case by simp
next
  case (2 lt xs a i j i' j')
  have "i \<le> scan_not_greater lt xs a i j"
  proof (induction lt xs a i j rule: scan_not_greater.induct)
    case (1 lt xs a i j)
    show ?case
    proof (cases "i \<le> j \<and> \<not> lt (xs ! a) (xs ! i)")
      case True
      with 1 have "i + 1 \<le> scan_not_greater lt xs a (i + 1) j" by blast
      with True show ?thesis by (subst scan_not_greater.simps) simp
    next
      case False
      then show ?thesis by (subst scan_not_greater.simps) auto
    qed
  qed
  moreover have "scan_greater lt xs a i' j \<le> j"
    by (induction j) auto
  ultimately show ?case using 2 by auto
qed

declare partitionEqual_loop.simps [simp del]

definition partitionEqual_func ::
  "('a \<Rightarrow> 'a \<Rightarrow> bool) \<Rightarrow> 'a list \<Rightarrow> nat \<Rightarrow> nat \<Rightarrow> nat \<Rightarrow> 'a list \<times> nat" where
  "partitionEqual_func lt xs a b pivot =
     partitionEqual_loop lt (swap xs a pivot) a (a + 1) (b - 1)"

text \<open>
  The loop of \<open>pdqsort_func\<close>, with its variables \<open>a\<close>, \<open>b\<close>, \<open>limit\<close>, \<open>wasBalanced\<close> and
  \<open>wasPartitioned\<close>. The Go code sorts one side of the pivot by a recursive call and
  goes round the loop for the other side. Every round shortens the range: the pivot
  that \<open>partition_func\<close> returns lies in \<open>[a, b)\<close>, and \<open>partitionEqual_func\<close> returns an
  index above \<open>a\<close>.
\<close>

function pdqsort_loop ::
  "(64 word \<Rightarrow> 64 word) \<Rightarrow> ('a \<Rightarrow> 'a \<Rightarrow> bool) \<Rightarrow> 'a list \<Rightarrow> nat \<Rightarrow> nat \<Rightarrow> nat \<Rightarrow> bool \<Rightarrow> bool
   \<Rightarrow> 'a list" where
  "pdqsort_loop rnd lt xs a b limit wasBalanced wasPartitioned =
     (let n = b - a in
      if n \<le> 12 then insertionSort_func lt xs a b
      else if limit = 0 then heapSort_func lt xs a b
      else
        (let xs1 = (if \<not> wasBalanced then breakPatterns_func rnd xs a b else xs);
             limit1 = (if \<not> wasBalanced then limit - 1 else limit);
             ph = choosePivot_func lt xs1 a b;
             xs2 = (if snd ph = decreasingHint then reverseRange_func xs1 a b else xs1);
             pivot = (if snd ph = decreasingHint then (b - 1) - (fst ph - a) else fst ph);
             hint = (if snd ph = decreasingHint then increasingHint else snd ph);
             ps = (if wasBalanced \<and> wasPartitioned \<and> hint = increasingHint
                   then partialInsertionSort_func lt xs2 a b else (xs2, False));
             xs3 = fst ps
         in if snd ps then xs3
            else if a > 0 \<and> \<not> lt (xs3 ! (a - 1)) (xs3 ! pivot)
            then (let pe = partitionEqual_func lt xs3 a b pivot
                  in pdqsort_loop rnd lt (fst pe) (snd pe) b limit1 wasBalanced wasPartitioned)
            else
              (let pt = partition_func lt xs3 a b pivot;
                   xs4 = fst pt; mid = fst (snd pt); alreadyPartitioned = snd (snd pt);
                   leftLen = mid - a; rightLen = b - mid;
                   balanceThreshold = n div 8
               in if leftLen < rightLen
                  then pdqsort_loop rnd lt (pdqsort_loop rnd lt xs4 a mid limit1 True True)
                         (mid + 1) b limit1 (leftLen \<ge> balanceThreshold) alreadyPartitioned
                  else pdqsort_loop rnd lt (pdqsort_loop rnd lt xs4 (mid + 1) b limit1 True True)
                         a mid limit1 (rightLen \<ge> balanceThreshold) alreadyPartitioned)))"
  by pat_completeness auto
termination
proof -
  have scan_less_ge: "i \<le> scan_less lt xs a i j"
    for lt :: "'a \<Rightarrow> 'a \<Rightarrow> bool" and xs a i j
  proof (induction lt xs a i j rule: scan_less.induct)
    case (1 lt xs a i j)
    show ?case
    proof (cases "i \<le> j \<and> lt (xs ! i) (xs ! a)")
      case True
      with 1 have "i + 1 \<le> scan_less lt xs a (i + 1) j" by blast
      with True show ?thesis by (subst scan_less.simps) simp
    next
      case False
      then show ?thesis by (subst scan_less.simps) auto
    qed
  qed
  have scan_not_less_le: "scan_not_less lt xs a i j \<le> j"
    for lt :: "'a \<Rightarrow> 'a \<Rightarrow> bool" and xs a i j
    by (induction j) auto
  have scan_not_less_ge: "min (i - 1) j \<le> scan_not_less lt xs a i j"
    for lt :: "'a \<Rightarrow> 'a \<Rightarrow> bool" and xs a i j
    by (induction j) auto
  have partition_loop_bounds:
    "min (i - 1) j \<le> snd (partition_loop lt xs a i j) \<and> snd (partition_loop lt xs a i j) \<le> j"
    for lt :: "'a \<Rightarrow> 'a \<Rightarrow> bool" and xs a i j
  proof (induction lt xs a i j rule: partition_loop.induct)
    case (1 lt xs a i j)
    let ?i = "scan_less lt xs a i j"
    let ?j = "scan_not_less lt xs a ?i j"
    let ?r = "snd (partition_loop lt (swap xs ?i ?j) a (?i + 1) (?j - 1))"
    have i1: "i \<le> ?i"
      by (rule scan_less_ge)
    have j1: "min (?i - 1) j \<le> ?j" "?j \<le> j"
      by (rule scan_not_less_ge, rule scan_not_less_le)
    show ?case
    proof (cases "?i > ?j")
      case True
      then have "snd (partition_loop lt xs a i j) = ?j"
        by (subst partition_loop.simps) (simp add: Let_def)
      with i1 j1 show ?thesis by linarith
    next
      case False
      then have eq: "snd (partition_loop lt xs a i j) = ?r"
        by (subst partition_loop.simps) (simp add: Let_def)
      from False 1 [OF refl refl] have "min (?i + 1 - 1) (?j - 1) \<le> ?r \<and> ?r \<le> ?j - 1"
        by simp
      with False i1 j1 show ?thesis unfolding eq by linarith
    qed
  qed
  have partition_func_bounds:
    "a \<le> fst (snd (partition_func lt xs a b pivot))
       \<and> fst (snd (partition_func lt xs a b pivot)) < b"
    if "a < b" for lt :: "'a \<Rightarrow> 'a \<Rightarrow> bool" and xs a b pivot
  proof -
    let ?xs = "swap xs a pivot"
    let ?i = "scan_less lt ?xs a (a + 1) (b - 1)"
    let ?j = "scan_not_less lt ?xs a ?i (b - 1)"
    let ?r = "snd (partition_loop lt (swap ?xs ?i ?j) a (?i + 1) (?j - 1))"
    have i1: "a + 1 \<le> ?i"
      by (rule scan_less_ge)
    have j1: "min (?i - 1) (b - 1) \<le> ?j" "?j \<le> b - 1"
      by (rule scan_not_less_ge, rule scan_not_less_le)
    from i1 j1 that have aj: "a \<le> ?j" "?j < b"
      by linarith+
    show ?thesis
    proof (cases "?i > ?j")
      case True
      then have "fst (snd (partition_func lt xs a b pivot)) = ?j"
        by (simp add: partition_func_def Let_def)
      with aj show ?thesis by simp
    next
      case False
      then have eq: "fst (snd (partition_func lt xs a b pivot)) = ?r"
        by (simp add: partition_func_def Let_def split_beta)
      from partition_loop_bounds [of "?i + 1" "?j - 1" lt "swap ?xs ?i ?j" a]
      have "min (?i + 1 - 1) (?j - 1) \<le> ?r \<and> ?r \<le> ?j - 1" .
      with False i1 aj show ?thesis unfolding eq by linarith
    qed
  qed
  have scan_not_greater_ge: "i \<le> scan_not_greater lt xs a i j"
    for lt :: "'a \<Rightarrow> 'a \<Rightarrow> bool" and xs a i j
  proof (induction lt xs a i j rule: scan_not_greater.induct)
    case (1 lt xs a i j)
    show ?case
    proof (cases "i \<le> j \<and> \<not> lt (xs ! a) (xs ! i)")
      case True
      with 1 have "i + 1 \<le> scan_not_greater lt xs a (i + 1) j" by blast
      with True show ?thesis by (subst scan_not_greater.simps) simp
    next
      case False
      then show ?thesis by (subst scan_not_greater.simps) auto
    qed
  qed
  have partitionEqual_loop_ge: "i \<le> snd (partitionEqual_loop lt xs a i j)"
    for lt :: "'a \<Rightarrow> 'a \<Rightarrow> bool" and xs a i j
  proof (induction lt xs a i j rule: partitionEqual_loop.induct)
    case (1 lt xs a i j)
    let ?i = "scan_not_greater lt xs a i j"
    let ?j = "scan_greater lt xs a ?i j"
    have i1: "i \<le> ?i"
      by (rule scan_not_greater_ge)
    show ?case
    proof (cases "?i > ?j")
      case True
      with i1 show ?thesis
        by (subst partitionEqual_loop.simps) (auto simp: Let_def)
    next
      case False
      with 1 [OF refl refl]
      have "?i + 1 \<le> snd (partitionEqual_loop lt (swap xs ?i ?j) a (?i + 1) (?j - 1))"
        by auto
      with False i1 show ?thesis
        by (subst partitionEqual_loop.simps) (auto simp: Let_def)
    qed
  qed
  have partitionEqual_func_gt: "a < snd (partitionEqual_func lt xs a b pivot)"
    for lt :: "'a \<Rightarrow> 'a \<Rightarrow> bool" and xs a b pivot
    using partitionEqual_loop_ge [of "a + 1" lt "swap xs a pivot" a "b - 1"]
    by (simp add: partitionEqual_func_def)
  show ?thesis
  proof (relation "measure (\<lambda>(rnd, lt, xs, a, b, limit, wb, wp). b - a)", goal_cases)
    case 1
    show ?case by simp
  next
    case (2 rnd lt xs a b limit wb wp n xs1 limit1 ph xs2 pivot hint ps xs3 pe)
    from 2 have ab: "a < b" by linarith
    from 2 have "pe = partitionEqual_func lt xs3 a b pivot" by blast
    then have "a < snd pe" by (simp add: partitionEqual_func_gt)
    with ab show ?case by simp
  next
    case (3 rnd lt xs a b limit wb wp n xs1 limit1 ph xs2 pivot hint ps xs3 pt xs4 mid)
    from 3 have ab: "a < b" by linarith
    from 3 have "mid = fst (snd (partition_func lt xs3 a b pivot))" by blast
    with partition_func_bounds [OF ab, of lt xs3 pivot] ab show ?case by (simp; linarith)
  next
    case (4 rnd lt xs a b limit wb wp n xs1 limit1 ph xs2 pivot hint ps xs3 pt xs4 mid)
    from 4 have ab: "a < b" by linarith
    from 4 have "mid = fst (snd (partition_func lt xs3 a b pivot))" by blast
    with partition_func_bounds [OF ab, of lt xs3 pivot] ab show ?case by (simp; linarith)
  next
    case (5 rnd lt xs a b limit wb wp n xs1 limit1 ph xs2 pivot hint ps xs3 pt xs4 mid)
    from 5 have ab: "a < b" by linarith
    from 5 have "mid = fst (snd (partition_func lt xs3 a b pivot))" by blast
    with partition_func_bounds [OF ab, of lt xs3 pivot] ab show ?case by (simp; linarith)
  next
    case (6 rnd lt xs a b limit wb wp n xs1 limit1 ph xs2 pivot hint ps xs3 pt xs4 mid)
    from 6 have ab: "a < b" by linarith
    from 6 have "mid = fst (snd (partition_func lt xs3 a b pivot))" by blast
    with partition_func_bounds [OF ab, of lt xs3 pivot] ab show ?case by (simp; linarith)
  qed
qed

declare pdqsort_loop.simps [simp del]

definition pdqsort_func ::
  "(64 word \<Rightarrow> 64 word) \<Rightarrow> ('a \<Rightarrow> 'a \<Rightarrow> bool) \<Rightarrow> 'a list \<Rightarrow> nat \<Rightarrow> nat \<Rightarrow> nat \<Rightarrow> 'a list" where
  "pdqsort_func rnd lt xs a b limit = pdqsort_loop rnd lt xs a b limit True True"

text \<open>
  \<open>sort.Slice(x, less)\<close>: \<open>pdqsort_func(lessSwap{less, swap}, 0, length, limit)\<close> with
  \<open>limit := bits.Len(uint(length))\<close>.
\<close>

definition sort_Slice :: "(64 word \<Rightarrow> 64 word) \<Rightarrow> ('a \<Rightarrow> 'a \<Rightarrow> bool) \<Rightarrow> 'a list \<Rightarrow> 'a list" where
  "sort_Slice rnd lt x = pdqsort_func rnd lt x 0 (length x) (bits_Len (length x))"

text \<open>Insertion sort of a whole slice: what \<open>sort.Slice\<close> runs on at most twelve elements.\<close>

definition insertionSort :: "('a \<Rightarrow> 'a \<Rightarrow> bool) \<Rightarrow> 'a list \<Rightarrow> 'a list" where
  "insertionSort lt xs = insertionSort_func lt xs 0 (length xs)"

section \<open>Request headers (package proxy, over net/textproto)\<close>

text \<open>
  \<open>textproto.CanonicalMIMEHeaderKey\<close> as the library documents it: the first letter and
  any letter after a hyphen in upper case, the rest in lower case; a key with a space or
  an invalid header field byte is returned as it is.
\<close>

definition validHeaderFieldByte :: "char \<Rightarrow> bool" where
  "validHeaderFieldByte c =
     (let n = (of_char c :: nat)
      in (48 \<le> n \<and> n \<le> 57) \<or> (65 \<le> n \<and> n \<le> 90) \<or> (97 \<le> n \<and> n \<le> 122)
         \<or> n \<in> set [33, 35, 36, 37, 38, 39, 42, 43, 45, 46, 94, 95, 96, 124, 126])"

definition toUpper :: "char \<Rightarrow> char" where
  "toUpper c =
     (let n = (of_char c :: nat) in if 97 \<le> n \<and> n \<le> 122 then char_of (n - 32) else c)"

definition toLower :: "char \<Rightarrow> char" where
  "toLower c =
     (let n = (of_char c :: nat) in if 65 \<le> n \<and> n \<le> 90 then char_of (n + 32) else c)"

fun canonicalize :: "bool \<Rightarrow> string \<Rightarrow> string" where
  "canonicalize upper [] = []"
| "canonicalize upper (c # cs) =
     (if upper then toUpper c else toLower c) # canonicalize (c = CHR ''-'') cs"

definition CanonicalMIMEHeaderKey :: "string \<Rightarrow> string" where
  "CanonicalMIMEHeaderKey s = (if list_all validHeaderFieldByte s then canonicalize True s else s)"

text \<open>\<open>MIMEHeader.Get\<close>: the first value stored under the canonical form of the key.\<close>

definition MIMEHeader_Get :: "(string \<times> string list) list \<Rightarrow> string \<Rightarrow> string" where
  "MIMEHeader_Get h key =
     (case map_of h (CanonicalMIMEHeaderKey key) of
        None \<Rightarrow> []
      | Some [] \<Rightarrow> []
      | Some (v # _) \<Rightarrow> v)"

definition HeaderGet :: "obj list \<Rightarrow> Request \<Rightarrow> string \<Rightarrow> string" where
  "HeaderGet h r key = MIMEHeader_Get (get_values h (Headers r)) key"

section \<open>The identity check plugin (package identifycheck)\<close>

record 'i Plugin =
  name :: string
  index :: int
  infra :: 'i

definition identifycheck_HandleHTTPMessage ::
  "'i Plugin \<Rightarrow> 'c \<Rightarrow> 'w pstate \<Rightarrow> string option \<times> 'w pstate" where
  "identifycheck_HandleHTTPMessage e ctx s =
     (let identify = HeaderGet (heap s) (request s) ''User-Identify''
      in if length identify \<noteq> 20 then (Some ''identify check failed'', s) else (None, s))"

definition identifycheck_Priority :: "'i Plugin \<Rightarrow> int" where
  "identifycheck_Priority e = index e"

text \<open>The \<open>*Plugin\<close> seen through the interface \<open>VicgPlugin\<close>.\<close>

definition identifycheck :: "'i Plugin \<Rightarrow> ('c, 'w) VicgPlugin" where
  "identifycheck e =
     \<lparr>Priority = identifycheck_Priority e,
      HandleHTTPMessage = identifycheck_HandleHTTPMessage e\<rparr>"

definition identifycheck_New :: "('c, 'w, 'i) VicgPluginFactory" where
  "identifycheck_New cfg ifr =
     Inr (identifycheck \<lparr>name = Name cfg, index = Index cfg, infra = ifr\<rparr>)"

section \<open>Writing a response body (package proxy)\<close>

text \<open>
  \<open>Response.Write\<close>. \<open>json.Unmarshal\<close> into the new empty map \<open>data\<close> is a parameter
  \<open>unmarshal\<close>: it fails with an error, or leaves in \<open>data\<close> the entries it decoded
  (\<open>Some\<close>), or, for the document \<open>null\<close>, sets \<open>data\<close> to \<open>nil\<close> (\<open>None\<close>). The result is
  the pair returned, the response and the heap.
\<close>

definition Write ::
  "(bytes \<Rightarrow> string + (string \<times> iface) list option) \<Rightarrow> bytes \<Rightarrow> Response \<Rightarrow> obj list
   \<Rightarrow> (int \<times> string option) \<times> Response \<times> obj list" where
  "Write unmarshal b resp h =
     (let (data, h1) = alloc h (AnyMapObj [])
      in case unmarshal b of
           Inl e \<Rightarrow> ((0, Some e), resp, h1)
         | Inr None \<Rightarrow> ((int (length b), None), resp\<lparr>Data_resp := None\<rparr>, h1)
         | Inr (Some m) \<Rightarrow>
             ((int (length b), None), resp\<lparr>Data_resp := Some data\<rparr>, h1[data := AnyMapObj m]))"

section \<open>Cloning a request (package proxy)\<close>

definition Clone :: "Request \<Rightarrow> Request" where
  "Clone r =
     \<lparr>Method = Method r, URL = URL r, Query = Query r, Path = Path r, Body = Body r,
      Params = Params r, Headers = Headers r,
      Data = None, Private = None, Reserved = None,
      RemoteAddr = RemoteAddr r, ContentLength = 0\<rparr>"

definition CloneRequestHeaders :: "obj list \<Rightarrow> addr option \<Rightarrow> addr option \<times> obj list" where
  "CloneRequestHeaders h headers =
     (let (m, h1) = alloc h (ValuesObj [])
      in (Some m, fold (\<lambda>(k, vs) h'. put_values h' m k vs) (get_values h headers) h1))"

definition CloneRequestParams :: "obj list \<Rightarrow> addr option \<Rightarrow> addr option \<times> obj list" where
  "CloneRequestParams h params =
     (let (m, h1) = alloc h (ParamsObj [])
      in (Some m, fold (\<lambda>(k, v) h'. put_params h' m k v) (get_params h params) h1))"

text \<open>
  \<open>buf.ReadFrom(r.Body)\<close> appends to the buffer what the reader delivers until it
  reports the end of its data or an error; \<open>CloneRequest\<close> drops the error. A reader
  that was closed delivers nothing, and a reader whose source breaks delivers the bytes
  before the break. \<open>r.Body.Close()\<close> closes the reader; on an \<open>io.NopCloser\<close> it does
  nothing.
\<close>

definition ReadFrom :: "obj list \<Rightarrow> addr \<Rightarrow> bytes \<times> obj list" where
  "ReadFrom h a =
     (case deref h a of
        Some (ReaderObj d c f) \<Rightarrow>
          (if c then ([], h)
           else (case f of
                   None \<Rightarrow> (d, h[a := ReaderObj [] c None])
                 | Some n \<Rightarrow> (take n d, h[a := ReaderObj (drop n d) c (Some 0)])))
      | Some (NopCloserObj d) \<Rightarrow> (d, h[a := NopCloserObj []])
      | _ \<Rightarrow> ([], h))"

definition Close :: "obj list \<Rightarrow> addr \<Rightarrow> obj list" where
  "Close h a =
     (case deref h a of
        Some (ReaderObj d c f) \<Rightarrow> h[a := ReaderObj d True f]
      | _ \<Rightarrow> h)"

text \<open>
  \<open>CloneRequest\<close> returns the clone, the received request as it is left behind the
  pointer \<open>r\<close>, and the heap. The two new bodies are \<open>io.NopCloser\<close> readers over the
  buffered bytes.
\<close>

definition CloneRequest :: "obj list \<Rightarrow> Request \<Rightarrow> Request \<times> Request \<times> obj list" where
  "CloneRequest h r =
     (let clone = Clone r;
          (hs, h1) = CloneRequestHeaders h (Headers r);
          clone = clone\<lparr>Headers := hs\<rparr>;
          (ps, h2) = CloneRequestParams h1 (Params r);
          clone = clone\<lparr>Params := ps\<rparr>
      in case Body r of
           None \<Rightarrow> (clone, r, h2)
         | Some body \<Rightarrow>
             (let (buf, h3) = ReadFrom h2 body;
                  h4 = Close h3 body;
                  (rb, h5) = alloc h4 (NopCloserObj buf);
                  (cb, h6) = alloc h5 (NopCloserObj buf)
              in (clone\<lparr>Body := Some cb\<rparr>, r\<lparr>Body := Some rb\<rparr>, h6)))"

text \<open>The heap after the two maps of the clone have been made.\<close>

definition maps_cloned :: "obj list \<Rightarrow> Request \<Rightarrow> obj list" where
  "maps_cloned h r = snd (CloneRequestParams (snd (CloneRequestHeaders h (Headers r))) (Params r))"

section \<open>Sample plugins, decoders and inputs\<close>

text \<open>
  Small plugins in the style of \<open>identifycheck\<close>, used to run the pipeline on concrete
  inputs. \<open>stamp_plugin\<close> writes a status code, takes \<open>d\<close> nanoseconds and succeeds;
  \<open>deny_plugin\<close> writes a status code and fails; \<open>partial_plugin\<close> marks the response as
  incomplete and succeeds.
\<close>

definition set_status :: "int \<Rightarrow> 'w pstate \<Rightarrow> 'w pstate" where
  "set_status code s =
     s\<lparr>response := (response s)\<lparr>Metadata := (Metadata (response s))\<lparr>StatusCode := code\<rparr>\<rparr>\<rparr>"

definition stamp_plugin :: "int \<Rightarrow> int \<Rightarrow> int \<Rightarrow> ('c, 'w) VicgPlugin" where
  "stamp_plugin prio code d =
     \<lparr>Priority = prio,
      HandleHTTPMessage = (\<lambda>ctx s. (None, (set_status code s)\<lparr>now := now s + d\<rparr>))\<rparr>"

definition deny_plugin :: "int \<Rightarrow> int \<Rightarrow> ('c, 'w) VicgPlugin" where
  "deny_plugin prio code =
     \<lparr>Priority = prio,
      HandleHTTPMessage = (\<lambda>ctx s. (Some ''denied'', set_status code s))\<rparr>"

definition partial_plugin :: "int \<Rightarrow> ('c, 'w) VicgPlugin" where
  "partial_plugin prio =
     \<lparr>Priority = prio,
      HandleHTTPMessage =
        (\<lambda>ctx s. (None, s\<lparr>response := (response s)\<lparr>IsComplete := False\<rparr>\<rparr>))\<rparr>"

definition deny_New :: "('c, 'w, 'i) VicgPluginFactory" where
  "deny_New cfg ifr = Inr (deny_plugin (Index cfg) 403)"

text \<open>The factory map of \<open>main\<close>, and one with a second plugin registered.\<close>

definition main_factory :: "(unit, unit, unit) defaultVicgFactory" where
  "main_factory = \<lparr>pluginFactory = [''IdentifyCheck'' \<mapsto> identifycheck_New]\<rparr>"

definition two_factory :: "(unit, unit, unit) defaultVicgFactory" where
  "two_factory =
     \<lparr>pluginFactory = [''IdentifyCheck'' \<mapsto> identifycheck_New, ''Deny'' \<mapsto> deny_New]\<rparr>"

text \<open>
  A request whose only header is \<open>User-Identify\<close> with the given token, in a heap that
  holds nothing but that header map.
\<close>

definition token_request :: Request where
  "token_request =
     \<lparr>Method = ''GET'', URL = None, Query = None, Path = ''/x'', Body = None,
      Params = None, Headers = Some 0, Data = None, Private = None, Reserved = None,
      RemoteAddr = ''10.0.0.1:5000'', ContentLength = 0\<rparr>"

definition token_env :: "string \<Rightarrow> unit env" where
  "token_env token =
     \<lparr>heap = [ValuesObj [(''User-Identify'', [token])]], world = (), now = 0\<rparr>"

text \<open>
  A request with every reference field set and an unread body of three bytes, and its
  heap.
\<close>

definition full_heap :: "obj list" where
  "full_heap =
     [URLObj ''http://host/a/7'',
      ValuesObj [(''page'', [''1''])],
      ReaderObj ''abc'' False None,
      ParamsObj [(''id'', ''7'')],
      ValuesObj [(''Accept'', [''text/plain'', ''text/html''])],
      DataObj [(''Face'', [[(''k'', VInt 1)]])],
      AnyMapObj [(''user'', VStr ''u'')],
      AnyMapObj []]"

definition full_request :: Request where
  "full_request =
     \<lparr>Method = ''POST'', URL = Some 0, Query = Some 1, Path = ''/a/7'', Body = Some 2,
      Params = Some 3, Headers = Some 4, Data = Some 5, Private = Some 6, Reserved = Some 7,
      RemoteAddr = ''10.0.0.1:5000'', ContentLength = 3\<rparr>"

text \<open>
  The same heap with a body reader that was closed before it was read, and with one
  whose source breaks after one byte.
\<close>

definition closed_heap :: "obj list" where
  "closed_heap = full_heap[2 := ReaderObj ''abc'' True None]"

definition broken_heap :: "obj list" where
  "broken_heap = full_heap[2 := ReaderObj ''abc'' False (Some 1)]"

text \<open>
  A decoder that knows two documents, the empty object and \<open>null\<close>, and rejects the rest:
  enough to take \<open>Write\<close> through each of its branches.
\<close>

definition two_document_decoder :: "bytes \<Rightarrow> string + (string \<times> iface) list option" where
  "two_document_decoder b =
     (if b = ''{}'' then Inr (Some [])
      else if b = ''null'' then Inr None
      else Inl ''invalid character'')"

text \<open>
  Endpoints: one that declares \<open>A\<close> with priority 10 before \<open>B\<close> with priority 1, one
  of thirteen plugins of which the first twelve have the same priority, and one whose
  second declaration names a plugin that is not registered.
\<close>

definition ab_endpoint :: EndpointConfig where
  "ab_endpoint =
     \<lparr>Plugins = [\<lparr>Name = ''Deny'', Index = 10\<rparr>, \<lparr>Name = ''IdentifyCheck'', Index = 1\<rparr>]\<rparr>"

definition tie_endpoint :: EndpointConfig where
  "tie_endpoint =
     \<lparr>Plugins = [\<lparr>Name = ''Deny'', Index = 1\<rparr>, \<lparr>Name = ''IdentifyCheck'', Index = 1\<rparr>,
                \<lparr>Name = ''IdentifyCheck'', Index = 1\<rparr>, \<lparr>Name = ''IdentifyCheck'', Index = 1\<rparr>,
                \<lparr>Name = ''IdentifyCheck'', Index = 1\<rparr>, \<lparr>Name = ''IdentifyCheck'', Index = 1\<rparr>,
                \<lparr>Name = ''IdentifyCheck'', Index = 1\<rparr>, \<lparr>Name = ''IdentifyCheck'', Index = 1\<rparr>,
                \<lparr>Name = ''IdentifyCheck'', Index = 1\<rparr>, \<lparr>Name = ''IdentifyCheck'', Index = 1\<rparr>,
                \<lparr>Name = ''IdentifyCheck'', Index = 1\<rparr>, \<lparr>Name = ''IdentifyCheck'', Index = 1\<rparr>,
                \<lparr>Name = ''IdentifyCheck'', Index = 0\<rparr>]\<rparr>"

definition broken_endpoint :: EndpointConfig where
  "broken_endpoint =
     \<lparr>Plugins = [\<lparr>Name = ''IdentifyCheck'', Index = 1\<rparr>, \<lparr>Name = ''Missing'', Index = 2\<rparr>,
                \<lparr>Name = ''IdentifyCheck'', Index = 3\<rparr>]\<rparr>"

section \<open>The fresh response envelope\<close>

lemma start_state_heap:
  "heap (start_state req e) =
     heap e @ [AnyMapObj [], ValuesObj [(''Content-Type'', [''application/VIID+JSON''])]]"
  by (simp add: start_state_def new_Response_def alloc_def)

lemma start_state_response:
  "response (start_state req e) =
     \<lparr>Data_resp = Some (length (heap e)), IsComplete = True,
      Metadata = \<lparr>Headers_md = Some (Suc (length (heap e))), StatusCode = 200\<rparr>\<rparr>"
  by (simp add: start_state_def new_Response_def alloc_def)

text \<open>
  C4. Whatever the request and whatever earlier executions left in the heap, the
  pipeline starts from a response whose payload is a newly allocated empty map, whose
  headers are a newly allocated map with the single entry
  \<open>Content-Type: application/VIID+JSON\<close>, whose status code is 200 and whose
  \<open>IsComplete\<close> flag is set; nothing that existed before is touched, and a pipeline
  without plugins returns exactly this response with a nil error.
\<close>

theorem fresh_response_envelope:
  fixes e :: "'w env" and ctx :: 'c
  shows "Data_resp (response (start_state req e)) = Some (length (heap e))
       \<and> Headers_md (Metadata (response (start_state req e))) = Some (Suc (length (heap e)))
       \<and> deref (heap e) (length (heap e)) = None
       \<and> deref (heap e) (Suc (length (heap e))) = None
       \<and> get_anymap (heap (start_state req e)) (Data_resp (response (start_state req e))) = []
       \<and> get_values (heap (start_state req e))
             (Headers_md (Metadata (response (start_state req e))))
           = [(''Content-Type'', [''application/VIID+JSON''])]
       \<and> StatusCode (Metadata (response (start_state req e))) = 200
       \<and> IsComplete (response (start_state req e))
       \<and> take (length (heap e)) (heap (start_state req e)) = heap e
       \<and> request (start_state req e) = req
       \<and> world (start_state req e) = world e
       \<and> now (start_state req e) = now e
       \<and> final (pipeline [] ctx req e :: ('c, 'w) outcome) = start_state req e
       \<and> err (pipeline [] ctx req e :: ('c, 'w) outcome) = None"
  by (simp add: start_state_heap start_state_response pipeline_def
      get_anymap_def get_values_def deref_def nth_append)
     (simp add: start_state_def new_Response_def alloc_def)

section \<open>Running the plugins\<close>

lemma run_plugins_all_ok:
  "all_ok ctx ps s \<Longrightarrow>
     err (run_plugins ctx ps s) = None \<and> final (run_plugins ctx ps s) = effects ctx ps s
   \<and> calls (run_plugins ctx ps s) = ps"
  by (induction ps arbitrary: s)
     (auto simp: effects_def Let_def split: prod.splits option.splits)

lemma run_plugins_append:
  "all_ok ctx pre s \<Longrightarrow>
     run_plugins ctx (pre @ post) s =
       (run_plugins ctx post (effects ctx pre s))
         \<lparr>calls := pre @ calls (run_plugins ctx post (effects ctx pre s)),
          logged := logged (run_plugins ctx pre s)
                     @ logged (run_plugins ctx post (effects ctx pre s))\<rparr>"
  by (induction pre arbitrary: s)
     (auto simp: effects_def Let_def split: prod.splits option.splits)

lemma canonical_User_Identify:
  "CanonicalMIMEHeaderKey ''User-Identify'' = ''User-Identify''"
  by (simp add: CanonicalMIMEHeaderKey_def validHeaderFieldByte_def toUpper_def toLower_def)

lemma effects_keeps_complete:
  "\<forall>p\<in>set ps. \<forall>s. IsComplete (response s) \<longrightarrow>
       IsComplete (response (snd (HandleHTTPMessage p ctx s))) \<Longrightarrow>
   IsComplete (response s) \<Longrightarrow> IsComplete (response (effects ctx ps s))"
  by (induction ps arbitrary: s) (auto simp: effects_def)

text \<open>
  C2. Let the plugins before position \<open>k\<close> (the list \<open>pre\<close>) return nil when called in
  turn, and let the plugin \<open>p\<close> at position \<open>k\<close>, called in the state they leave, return
  the error \<open>m\<close> and the state \<open>s'\<close>. Then the pipeline returns \<open>m\<close>, and the state it
  returns is \<open>s'\<close>: the response as the plugins \<open>0..k-1\<close> and then \<open>p\<close> left it, nothing
  undone. The plugins called are those at positions \<open>0..k\<close>, each once and in order, so
  none after \<open>p\<close>; the error is logged with the priority of \<open>p\<close>.
\<close>

theorem first_error_stops_pipeline:
  assumes "all_ok ctx pre (start_state req e)"
      and "HandleHTTPMessage p ctx (effects ctx pre (start_state req e)) = (Some m, s')"
  shows "err (pipeline (pre @ p # post) ctx req e) = Some m
       \<and> final (pipeline (pre @ p # post) ctx req e) = s'
       \<and> calls (pipeline (pre @ p # post) ctx req e) = pre @ [p]
       \<and> calls (pipeline (pre @ p # post) ctx req e) = take (Suc (length pre)) (pre @ p # post)
       \<and> logged (pipeline (pre @ p # post) ctx req e)
           = logged (pipeline pre ctx req e) @ [PluginError (Priority p) m]"
  using assms by (simp add: pipeline_def run_plugins_append)

theorem first_error_stops_pipeline_witness:
  "all_ok () [stamp_plugin 1 201 0] (start_state token_request (token_env ''t''))
 \<and> fst (HandleHTTPMessage (deny_plugin 2 403) ()
       (effects () [stamp_plugin 1 201 0] (start_state token_request (token_env ''t''))))
     = Some ''denied''
 \<and> err (pipeline [stamp_plugin 1 201 0, deny_plugin 2 403, stamp_plugin 3 500 0] ()
           token_request (token_env ''t'')) = Some ''denied''
 \<and> calls (pipeline [stamp_plugin 1 201 0, deny_plugin 2 403, stamp_plugin 3 500 0] ()
           token_request (token_env ''t'')) = [stamp_plugin 1 201 0, deny_plugin 2 403]
 \<and> StatusCode (Metadata (response (final
       (pipeline [stamp_plugin 1 201 0, deny_plugin 2 403, stamp_plugin 3 500 0] ()
           token_request (token_env ''t''))))) = 403"
proof -
  let ?s0 = "start_state token_request (token_env ''t'') :: unit pstate"
  have ok: "all_ok () [stamp_plugin 1 201 0] ?s0"
    by (simp add: stamp_plugin_def)
  have h: "HandleHTTPMessage (deny_plugin 2 403) () (effects () [stamp_plugin 1 201 0] ?s0)
           = (Some ''denied'', set_status 403 (effects () [stamp_plugin 1 201 0] ?s0))"
    by (simp add: deny_plugin_def)
  from first_error_stops_pipeline [OF ok h, of "[stamp_plugin 3 500 0]"] ok h
  show ?thesis
    by (simp add: set_status_def)
qed

text \<open>
  C6, as the code has it. When every plugin, called in its turn, returns nil, the
  pipeline returns the nil error, has called every plugin once and in order, and returns
  the state the plugins left. The executor never touches \<open>IsComplete\<close> after it has
  built the response, so the flag is still set on return provided no plugin clears it.
\<close>

theorem all_plugins_succeed:
  assumes "all_ok ctx ps (start_state req e)"
  shows "err (pipeline ps ctx req e) = None
       \<and> calls (pipeline ps ctx req e) = ps
       \<and> final (pipeline ps ctx req e) = effects ctx ps (start_state req e)
       \<and> ((\<forall>p\<in>set ps. \<forall>s. IsComplete (response s) \<longrightarrow>
              IsComplete (response (snd (HandleHTTPMessage p ctx s))))
           \<longrightarrow> IsComplete (response (final (pipeline ps ctx req e))))"
  using assms
  by (auto simp: pipeline_def run_plugins_all_ok start_state_response
      intro!: effects_keeps_complete)

theorem all_plugins_succeed_witness:
  "all_ok () [stamp_plugin 1 201 0, identifycheck \<lparr>name = ''IdentifyCheck'', index = 2, infra = ()\<rparr>]
     (start_state token_request (token_env ''01234567890123456789''))
 \<and> err (pipeline [stamp_plugin 1 201 0, identifycheck \<lparr>name = ''IdentifyCheck'', index = 2, infra = ()\<rparr>]
           () token_request (token_env ''01234567890123456789'')) = None
 \<and> calls (pipeline [stamp_plugin 1 201 0, identifycheck \<lparr>name = ''IdentifyCheck'', index = 2, infra = ()\<rparr>]
           () token_request (token_env ''01234567890123456789''))
     = [stamp_plugin 1 201 0, identifycheck \<lparr>name = ''IdentifyCheck'', index = 2, infra = ()\<rparr>]
 \<and> IsComplete (response (final
      (pipeline [stamp_plugin 1 201 0, identifycheck \<lparr>name = ''IdentifyCheck'', index = 2, infra = ()\<rparr>]
           () token_request (token_env ''01234567890123456789''))))"
proof -
  let ?ps = "[stamp_plugin 1 201 0,
      identifycheck \<lparr>name = ''IdentifyCheck'', index = 2, infra = ()\<rparr>] :: (unit, unit) VicgPlugin list"
  let ?s0 = "start_state token_request (token_env ''01234567890123456789'') :: unit pstate"
  have ok: "all_ok () ?ps ?s0"
    by (simp add: stamp_plugin_def identifycheck_def identifycheck_HandleHTTPMessage_def
        HeaderGet_def MIMEHeader_Get_def canonical_User_Identify get_values_def deref_def
        set_status_def start_state_def new_Response_def alloc_def token_request_def
        token_env_def)
  have keep: "\<forall>p\<in>set ?ps. \<forall>s. IsComplete (response s) \<longrightarrow>
              IsComplete (response (snd (HandleHTTPMessage p () s)))"
    by (simp add: stamp_plugin_def identifycheck_def identifycheck_HandleHTTPMessage_def
        set_status_def Let_def)
  note t = all_plugins_succeed [OF ok]
  from t keep have "IsComplete (response (final (pipeline ?ps () token_request
      (token_env ''01234567890123456789''))))"
    by blast
  with t ok show ?thesis
    by blast
qed

text \<open>
  C6 as the claim states it fails: a plugin that clears \<open>IsComplete\<close> and returns nil
  makes the pipeline return a nil error with a response that is not complete.
\<close>

theorem incomplete_response_counterexample:
  "all_ok () [partial_plugin 1] (start_state token_request (token_env ''t''))
 \<and> err (pipeline [partial_plugin 1] () token_request (token_env ''t'')) = None
 \<and> calls (pipeline [partial_plugin 1] () token_request (token_env ''t'')) = [partial_plugin 1]
 \<and> \<not> IsComplete (response (final (pipeline [partial_plugin 1] () token_request (token_env ''t''))))"
  by (simp add: pipeline_def partial_plugin_def)

text \<open>
  C8. Let the plugins before \<open>p\<close> return nil, and let \<open>p\<close>, called in the state they
  leave, return nil after moving the clock from \<open>tick\<close> to \<open>now s'\<close>. If the span is more
  than five seconds, the records logged for \<open>p\<close> are exactly one \<open>SlowPlugin\<close> record with
  the priority of \<open>p\<close>, the span, and the method and path of the request; otherwise none
  is logged for \<open>p\<close>. Either way the loop goes on with the plugins after \<open>p\<close>, from the
  state \<open>p\<close> left. The wall clock is the field \<open>now\<close>, which only plugins advance.
\<close>

theorem slow_plugin_record:
  assumes "all_ok ctx pre (start_state req e)"
      and "HandleHTTPMessage p ctx (effects ctx pre (start_state req e)) = (None, s')"
  shows "logged (pipeline (pre @ p # post) ctx req e)
           = logged (pipeline pre ctx req e)
             @ (if now s' - now (effects ctx pre (start_state req e)) > 5 * Second
                then [SlowPlugin (Priority p) (now s' - now (effects ctx pre (start_state req e)))
                        (Method (request s')) (Path (request s'))]
                else [])
             @ logged (run_plugins ctx post s')
       \<and> calls (pipeline (pre @ p # post) ctx req e) = pre @ p # calls (run_plugins ctx post s')
       \<and> err (pipeline (pre @ p # post) ctx req e) = err (run_plugins ctx post s')
       \<and> final (pipeline (pre @ p # post) ctx req e) = final (run_plugins ctx post s')"
  using assms by (simp add: pipeline_def run_plugins_append sec_def Let_def)

theorem slow_plugin_record_witness:
  "all_ok () [] (start_state token_request (token_env ''t''))
 \<and> HandleHTTPMessage (stamp_plugin 7 200 (6 * Second)) ()
       (effects () [] (start_state token_request (token_env ''t'')))
     = (None, (start_state token_request (token_env ''t''))\<lparr>now := 6 * Second\<rparr>)
 \<and> logged (pipeline [stamp_plugin 7 200 (6 * Second), stamp_plugin 8 200 Second] ()
       token_request (token_env ''t''))
     = [SlowPlugin 7 6000000000 ''GET'' ''/x'']
 \<and> calls (pipeline [stamp_plugin 7 200 (6 * Second), stamp_plugin 8 200 Second] ()
       token_request (token_env ''t''))
     = [stamp_plugin 7 200 (6 * Second), stamp_plugin 8 200 Second]
 \<and> err (pipeline [stamp_plugin 7 200 (6 * Second), stamp_plugin 8 200 Second] ()
       token_request (token_env ''t'')) = None"
proof -
  let ?s0 = "start_state token_request (token_env ''t'') :: unit pstate"
  let ?s1 = "?s0\<lparr>now := 6 * Second\<rparr>"
  let ?p = "stamp_plugin 7 200 (6 * Second) :: (unit, unit) VicgPlugin"
  let ?q = "stamp_plugin 8 200 Second :: (unit, unit) VicgPlugin"
  have ok: "all_ok () [] ?s0"
    by simp
  have h: "HandleHTTPMessage ?p () (effects () [] ?s0) = (None, ?s1)"
    by (simp add: stamp_plugin_def effects_def set_status_def start_state_def
        new_Response_def alloc_def token_env_def)
  have A: "logged (pipeline [] () token_request (token_env ''t'') :: (unit, unit) outcome) = []"
    by (simp add: pipeline_def)
  have B: "(if now ?s1 - now (effects () [] ?s0) > 5 * Second
            then [SlowPlugin (Priority ?p) (now ?s1 - now (effects () [] ?s0))
                    (Method (request ?s1)) (Path (request ?s1))]
            else []) = [SlowPlugin 7 6000000000 ''GET'' ''/x'']"
    by (simp add: effects_def start_state_def new_Response_def alloc_def token_env_def
        token_request_def Second_def stamp_plugin_def)
  have C: "logged (run_plugins () [?q] ?s1) = [] \<and> calls (run_plugins () [?q] ?s1) = [?q]
         \<and> err (run_plugins () [?q] ?s1) = None"
    by (simp add: stamp_plugin_def Second_def sec_def)
  note t = slow_plugin_record [OF ok h, of "[?q]", unfolded A B]
  from t C ok h show ?thesis
    by simp
qed

section \<open>The identity check in a pipeline\<close>

lemma User_Identify_not_Content_Type:
  "MIMEHeader_Get [(''Content-Type'', [''application/VIID+JSON''])] ''User-Identify'' = []"
  by (simp add: MIMEHeader_Get_def canonical_User_Identify)

lemma HeaderGet_start_state:
  "HeaderGet (heap (start_state req e)) req ''User-Identify''
     = HeaderGet (heap e) req ''User-Identify''"
proof (cases "Headers req")
  case None
  then show ?thesis by (simp add: HeaderGet_def get_values_def)
next
  case (Some a)
  consider "a < length (heap e)" | "a = length (heap e)" | "a = Suc (length (heap e))"
    | "a > Suc (length (heap e))"
    by linarith
  then show ?thesis
  proof cases
    case 1
    then show ?thesis
      by (simp add: HeaderGet_def get_values_def deref_def start_state_heap Some nth_append)
  next
    case 2
    then show ?thesis
      by (simp add: HeaderGet_def get_values_def deref_def start_state_heap Some nth_append
          MIMEHeader_Get_def)
  next
    case 3
    then show ?thesis
      by (simp add: HeaderGet_def get_values_def deref_def start_state_heap Some nth_append
          User_Identify_not_Content_Type)
         (simp add: MIMEHeader_Get_def)
  next
    case 4
    then show ?thesis
      by (simp add: HeaderGet_def get_values_def deref_def start_state_heap Some)
  qed
qed

lemma start_state_request: "request (start_state req e) = req"
  by (simp add: start_state_def new_Response_def alloc_def)

lemma identifycheck_at_start:
  "HandleHTTPMessage (identifycheck P) ctx (start_state req e)
     = (if length (HeaderGet (heap e) req ''User-Identify'') \<noteq> 20
        then Some ''identify check failed'' else None, start_state req e)"
  by (simp add: identifycheck_def identifycheck_HandleHTTPMessage_def start_state_request
      HeaderGet_start_state)

lemma token_request_header:
  "HeaderGet (heap (token_env token)) token_request ''User-Identify'' = token"
  by (simp add: HeaderGet_def MIMEHeader_Get_def canonical_User_Identify get_values_def
      deref_def token_request_def token_env_def)

text \<open>
  C5. Take a pipeline whose first plugin is the identity check, followed by any other
  plugins, and any request. If the value of the header \<open>User-Identify\<close> does not have
  length 20 (19, say, or the header is missing), the pipeline returns the error of the
  identity check, the only plugin called is the identity check, and the state returned is
  the starting state: the response is the default envelope, its payload empty. If the
  value has length 20, the identity check returns nil and changes nothing, neither
  request nor response, and the pipeline goes on with the plugins that follow.
\<close>

theorem identifycheck_guards_pipeline:
  fixes e :: "'w env" and P :: "'i Plugin" and ctx :: 'c
  shows "(length (HeaderGet (heap e) req ''User-Identify'') \<noteq> 20 \<longrightarrow>
            err (pipeline (identifycheck P # rest) ctx req e) = Some ''identify check failed''
          \<and> calls (pipeline (identifycheck P # rest) ctx req e) = [identifycheck P]
          \<and> final (pipeline (identifycheck P # rest) ctx req e) = start_state req e
          \<and> get_anymap (heap (final (pipeline (identifycheck P # rest) ctx req e)))
               (Data_resp (response (final (pipeline (identifycheck P # rest) ctx req e)))) = [])
       \<and> (length (HeaderGet (heap e) req ''User-Identify'') = 20 \<longrightarrow>
            HandleHTTPMessage (identifycheck P) ctx (start_state req e) = (None, start_state req e)
          \<and> pipeline (identifycheck P # rest) ctx req e
              = (run_plugins ctx rest (start_state req e))
                  \<lparr>calls := identifycheck P # calls (run_plugins ctx rest (start_state req e))\<rparr>)"
proof -
  have d: "get_anymap (heap (start_state req e)) (Data_resp (response (start_state req e))) = []"
    by (simp add: start_state_heap start_state_response get_anymap_def deref_def nth_append)
  show ?thesis
    by (simp add: pipeline_def identifycheck_at_start d sec_def Second_def Let_def)
qed

theorem identifycheck_guards_pipeline_witness:
  "length (HeaderGet (heap (token_env ''0123456789012345678'')) token_request ''User-Identify'') = 19
 \<and> err (pipeline [identifycheck \<lparr>name = ''IdentifyCheck'', index = 1, infra = ()\<rparr>,
                   stamp_plugin 2 201 0] () token_request (token_env ''0123456789012345678''))
     = Some ''identify check failed''
 \<and> calls (pipeline [identifycheck \<lparr>name = ''IdentifyCheck'', index = 1, infra = ()\<rparr>,
                   stamp_plugin 2 201 0] () token_request (token_env ''0123456789012345678''))
     = [identifycheck \<lparr>name = ''IdentifyCheck'', index = 1, infra = ()\<rparr>]
 \<and> length (HeaderGet (heap (token_env ''01234567890123456789'')) token_request ''User-Identify'') = 20
 \<and> err (pipeline [identifycheck \<lparr>name = ''IdentifyCheck'', index = 1, infra = ()\<rparr>,
                   stamp_plugin 2 201 0] () token_request (token_env ''01234567890123456789''))
     = None
 \<and> calls (pipeline [identifycheck \<lparr>name = ''IdentifyCheck'', index = 1, infra = ()\<rparr>,
                   stamp_plugin 2 201 0] () token_request (token_env ''01234567890123456789''))
     = [identifycheck \<lparr>name = ''IdentifyCheck'', index = 1, infra = ()\<rparr>, stamp_plugin 2 201 0]
 \<and> StatusCode (Metadata (response (final
       (pipeline [identifycheck \<lparr>name = ''IdentifyCheck'', index = 1, infra = ()\<rparr>,
                   stamp_plugin 2 201 0] () token_request (token_env ''01234567890123456789'')))))
     = 201"
proof -
  let ?P = "\<lparr>name = ''IdentifyCheck'', index = 1, infra = ()\<rparr>"
  let ?q = "stamp_plugin 2 201 0 :: (unit, unit) VicgPlugin"
  have n19: "length (HeaderGet (heap (token_env ''0123456789012345678'')) token_request
               ''User-Identify'') = 19"
    by (simp add: HeaderGet_def MIMEHeader_Get_def canonical_User_Identify get_values_def
        deref_def token_request_def token_env_def)
  have n20: "length (HeaderGet (heap (token_env ''01234567890123456789'')) token_request
               ''User-Identify'') = 20"
    by (simp add: HeaderGet_def MIMEHeader_Get_def canonical_User_Identify get_values_def
        deref_def token_request_def token_env_def)
  have rest: "err (run_plugins () [?q] s) = None \<and> calls (run_plugins () [?q] s) = [?q]
      \<and> StatusCode (Metadata (response (final (run_plugins () [?q] s)))) = 201" for s :: "unit pstate"
    by (simp add: stamp_plugin_def set_status_def sec_def Second_def)
  from identifycheck_guards_pipeline [of "token_env ''0123456789012345678''" token_request ?P "[?q]" "()"]
    n19
  have a: "err (pipeline [identifycheck ?P, ?q] () token_request (token_env ''0123456789012345678''))
             = Some ''identify check failed''
         \<and> calls (pipeline [identifycheck ?P, ?q] () token_request (token_env ''0123456789012345678''))
             = [identifycheck ?P]"
    by simp
  from identifycheck_guards_pipeline [of "token_env ''01234567890123456789''" token_request ?P "[?q]" "()"]
    n20
  have b: "pipeline [identifycheck ?P, ?q] () token_request (token_env ''01234567890123456789'')
      = (run_plugins () [?q] (start_state token_request (token_env ''01234567890123456789'')))
          \<lparr>calls := identifycheck ?P
             # calls (run_plugins () [?q] (start_state token_request (token_env ''01234567890123456789'')))\<rparr>"
    by simp
  show ?thesis
    unfolding b using a n19 n20 by (simp add: rest del: run_plugins.simps)
qed

section \<open>Building fails as a whole\<close>

lemma createNewPlugin_unknown:
  "pluginFactory pf (Name c) = None \<Longrightarrow>
     createNewPlugin pf c ifr = Inl (''the plugin '' @ [CHR 0x27] @ Name c @ [CHR 0x27] @ '' not found'')"
  by (simp add: createNewPlugin_def getPluginFactory_def)

lemma create_plugins_first_failure:
  "\<forall>d\<in>set pre. \<not> isl (createNewPlugin pf d ifr) \<Longrightarrow> createNewPlugin pf c ifr = Inl m \<Longrightarrow>
     create_plugins pf (pre @ c # post) ifr = Inl m"
  by (induction pre) (auto split: sum.splits)

lemma create_plugins_any_failure:
  "c \<in> set cs \<Longrightarrow> isl (createNewPlugin pf c ifr) \<Longrightarrow> isl (create_plugins pf cs ifr)"
  by (induction cs) (auto split: sum.splits)

text \<open>
  C3. Split the endpoint's declarations at any declaration \<open>c\<close>. If every declaration
  before \<open>c\<close> is constructed and the construction of \<open>c\<close> fails with \<open>m\<close>, then \<open>New\<close>
  returns no pipeline and the error \<open>m\<close>, whatever follows \<open>c\<close>. In particular, if the
  name of \<open>c\<close> is not a key of the factory map, the error says that the plugin of that
  name was not found. And wherever a declaration with an unregistered name stands in
  the list, \<open>New\<close> returns an error and no pipeline.
\<close>

theorem New_aborts_at_first_failure:
  assumes "Plugins cfg = pre @ c # post"
  shows "((\<forall>d\<in>set pre. \<not> isl (createNewPlugin pf d ifr)) \<and> createNewPlugin pf c ifr = Inl m
            \<longrightarrow> New srt pf cfg ifr = Inl m)
       \<and> ((\<forall>d\<in>set pre. \<not> isl (createNewPlugin pf d ifr)) \<and> pluginFactory pf (Name c) = None
            \<longrightarrow> New srt pf cfg ifr
                  = Inl (''the plugin '' @ [CHR 0x27] @ Name c @ [CHR 0x27] @ '' not found''))
       \<and> (pluginFactory pf (Name c) = None \<longrightarrow> isl (New srt pf cfg ifr))"
proof (intro conjI impI)
  assume "(\<forall>d\<in>set pre. \<not> isl (createNewPlugin pf d ifr)) \<and> createNewPlugin pf c ifr = Inl m"
  then show "New srt pf cfg ifr = Inl m"
    by (simp add: New_def New_plugins_def assms create_plugins_first_failure)
next
  assume "(\<forall>d\<in>set pre. \<not> isl (createNewPlugin pf d ifr)) \<and> pluginFactory pf (Name c) = None"
  then show "New srt pf cfg ifr
       = Inl (''the plugin '' @ [CHR 0x27] @ Name c @ [CHR 0x27] @ '' not found'')"
    by (simp add: New_def New_plugins_def assms create_plugins_first_failure
        createNewPlugin_unknown)
next
  assume "pluginFactory pf (Name c) = None"
  then have "isl (createNewPlugin pf c ifr)"
    by (simp add: createNewPlugin_unknown)
  then have "isl (create_plugins pf (Plugins cfg) ifr)"
    using create_plugins_any_failure [of c "Plugins cfg" pf ifr] assms by simp
  then show "isl (New srt pf cfg ifr)"
    by (auto simp: New_def New_plugins_def split: sum.splits)
qed

theorem New_aborts_at_first_failure_witness:
  "Plugins broken_endpoint
     = [\<lparr>Name = ''IdentifyCheck'', Index = 1\<rparr>] @ \<lparr>Name = ''Missing'', Index = 2\<rparr>
         # [\<lparr>Name = ''IdentifyCheck'', Index = 3\<rparr>]
 \<and> \<not> isl (createNewPlugin main_factory \<lparr>Name = ''IdentifyCheck'', Index = 1\<rparr> ())
 \<and> pluginFactory main_factory ''Missing'' = None
 \<and> createNewPlugin main_factory \<lparr>Name = ''Missing'', Index = 2\<rparr> ()
     = Inl (''the plugin '' @ [CHR 0x27] @ ''Missing'' @ [CHR 0x27] @ '' not found'')
 \<and> New insertionSort main_factory broken_endpoint ()
     = Inl (''the plugin '' @ [CHR 0x27] @ ''Missing'' @ [CHR 0x27] @ '' not found'')"
proof -
  let ?a = "\<lparr>Name = ''IdentifyCheck'', Index = 1\<rparr>"
  let ?c = "\<lparr>Name = ''Missing'', Index = 2\<rparr>"
  let ?z = "\<lparr>Name = ''IdentifyCheck'', Index = 3\<rparr>"
  have shape: "Plugins broken_endpoint = [?a] @ ?c # [?z]"
    by (simp add: broken_endpoint_def)
  have pre: "\<forall>d\<in>set [?a]. \<not> isl (createNewPlugin main_factory d ())"
    by (simp add: createNewPlugin_def getPluginFactory_def main_factory_def identifycheck_New_def)
  have unknown: "pluginFactory main_factory (Name ?c) = None"
    by (simp add: main_factory_def)
  have fails: "createNewPlugin main_factory ?c ()
     = Inl (''the plugin '' @ [CHR 0x27] @ ''Missing'' @ [CHR 0x27] @ '' not found'')"
    by (simp add: createNewPlugin_def getPluginFactory_def main_factory_def)
  from New_aborts_at_first_failure [OF shape, of main_factory "()" _ insertionSort] pre unknown
  have "New insertionSort main_factory broken_endpoint ()
     = Inl (''the plugin '' @ [CHR 0x27] @ ''Missing'' @ [CHR 0x27] @ '' not found'')"
    by simp
  with shape pre unknown fails show ?thesis
    by simp
qed

section \<open>The captured plugin list is sorted\<close>

lemma length_swap [simp]: "length (swap xs i j) = length xs"
  by (simp add: swap_def)

lemma mset_swap': "i < length xs \<Longrightarrow> j < length xs \<Longrightarrow> mset (swap xs i j) = mset xs"
  by (simp add: swap_def mset_swap)

lemma sink_to_length [simp]: "length (sink_to a lt xs j) = length xs"
  by (induction j arbitrary: xs) auto

lemma sink_to_mset: "j < length xs \<Longrightarrow> mset (sink_to a lt xs j) = mset xs"
  by (induction j arbitrary: xs) (auto simp: mset_swap')

lemma fold_sink_length [simp]: "length (fold (\<lambda>i ys. sink_to a lt ys i) is xs) = length xs"
  by (induction "is" arbitrary: xs) auto

lemma fold_sink_length_mset:
  "set is \<subseteq> {..<length xs} \<Longrightarrow>
     length (fold (\<lambda>i ys. sink_to a lt ys i) is xs) = length xs
   \<and> mset (fold (\<lambda>i ys. sink_to a lt ys i) is xs) = mset xs"
  by (induction "is" arbitrary: xs) (auto simp: sink_to_mset)

lemma insertionSort_mset: "mset (insertionSort lt xs) = mset xs"
  unfolding insertionSort_def insertionSort_func_def
  by (rule fold_sink_length_mset [THEN conjunct2]) auto

lemma sink_to_sorted:
  fixes key :: "'a \<Rightarrow> int"
  assumes "i < length xs" and "j \<le> i"
      and "\<forall>p q. p \<le> q \<and> q \<le> i \<and> p \<noteq> j \<and> q \<noteq> j \<longrightarrow> key (xs ! p) \<le> key (xs ! q)"
      and "\<forall>q. j < q \<and> q \<le> i \<longrightarrow> key (xs ! j) \<le> key (xs ! q)"
  shows "\<forall>p q. p \<le> q \<and> q \<le> i \<longrightarrow>
           key (sink_to 0 (\<lambda>a b. key a < key b) xs j ! p) \<le> key (sink_to 0 (\<lambda>a b. key a < key b) xs j ! q)"
  using assms
proof (induction j arbitrary: xs)
  case 0
  show ?case
  proof (intro allI impI)
    fix p q assume pq: "p \<le> q \<and> q \<le> i"
    show "key (sink_to 0 (\<lambda>a b. key a < key b) xs 0 ! p) \<le> key (sink_to 0 (\<lambda>a b. key a < key b) xs 0 ! q)"
    proof (cases "p = 0")
      case True
      with pq "0.prems"(4) show ?thesis by (cases "q = 0") auto
    next
      case False
      with pq "0.prems"(3) show ?thesis by auto
    qed
  qed
next
  case (Suc j)
  show ?case
  proof (cases "key (xs ! Suc j) < key (xs ! j)")
    case True
    let ?ys = "swap xs (Suc j) j"
    have len: "i < length ?ys" using Suc.prems(1) by simp
    have j: "j \<le> i" using Suc.prems(2) by simp
    have nth: "?ys ! r = (if r = j then xs ! Suc j else if r = Suc j then xs ! j else xs ! r)"
      if "r \<le> i" for r
      using that Suc.prems(1,2) by (auto simp: swap_def nth_list_update)
    have a3: "\<forall>p q. p \<le> q \<and> q \<le> i \<and> p \<noteq> j \<and> q \<noteq> j \<longrightarrow> key (?ys ! p) \<le> key (?ys ! q)"
    proof (intro allI impI)
      fix p q assume h: "p \<le> q \<and> q \<le> i \<and> p \<noteq> j \<and> q \<noteq> j"
      then have pi: "p \<le> i" by simp
      show "key (?ys ! p) \<le> key (?ys ! q)"
      proof (cases "p = Suc j")
        case pS: True
        show ?thesis
        proof (cases "q = Suc j")
          case True with pS show ?thesis by simp
        next
          case False
          with h pS have "j \<le> q \<and> q \<le> i \<and> j \<noteq> Suc j \<and> q \<noteq> Suc j" by auto
          with Suc.prems(3) have "key (xs ! j) \<le> key (xs ! q)" by blast
          with h pS False show ?thesis by (simp add: nth)
        qed
      next
        case pN: False
        show ?thesis
        proof (cases "q = Suc j")
          case True
          with h pN have "p \<le> j \<and> j \<le> i \<and> p \<noteq> Suc j \<and> j \<noteq> Suc j" using j by auto
          with Suc.prems(3) have "key (xs ! p) \<le> key (xs ! j)" by blast
          with h pN True pi show ?thesis by (simp add: nth)
        next
          case False
          with h pN Suc.prems(3) have "key (xs ! p) \<le> key (xs ! q)" by blast
          with h pN False pi show ?thesis by (simp add: nth)
        qed
      qed
    qed
    have a4: "\<forall>q. j < q \<and> q \<le> i \<longrightarrow> key (?ys ! j) \<le> key (?ys ! q)"
    proof (intro allI impI)
      fix q assume h: "j < q \<and> q \<le> i"
      show "key (?ys ! j) \<le> key (?ys ! q)"
      proof (cases "q = Suc j")
        case True
        with h j True \<open>key (xs ! Suc j) < key (xs ! j)\<close> show ?thesis by (simp add: nth)
      next
        case False
        with h have "Suc j < q \<and> q \<le> i" by auto
        with Suc.prems(4) have "key (xs ! Suc j) \<le> key (xs ! q)" by blast
        with h j False show ?thesis by (simp add: nth)
      qed
    qed
    from Suc.IH [OF len j a3 a4] True show ?thesis by simp
  next
    case False
    have "key (xs ! p) \<le> key (xs ! q)" if pq: "p \<le> q \<and> q \<le> i" for p q
    proof (cases "p = Suc j")
      case pS: True
      with pq Suc.prems(4) show ?thesis by (cases "q = Suc j") auto
    next
      case pN: False
      show ?thesis
      proof (cases "q = Suc j")
        case True
        have "key (xs ! p) \<le> key (xs ! j)"
        proof (cases "p = j")
          case True then show ?thesis by simp
        next
          case False
          with pq pN True have "p \<le> j \<and> j \<le> i \<and> p \<noteq> Suc j \<and> j \<noteq> Suc j" by auto
          with Suc.prems(3) show ?thesis by blast
        qed
        with False True show ?thesis by simp
      next
        case False
        with pq pN Suc.prems(3) show ?thesis by blast
      qed
    qed
    with False show ?thesis by simp
  qed
qed

lemma fold_sink_sorted:
  fixes key :: "'a \<Rightarrow> int"
  shows "m \<le> length xs \<Longrightarrow>
     (\<forall>p q. p \<le> q \<and> q < m \<longrightarrow>
        key (fold (\<lambda>i ys. sink_to 0 (\<lambda>a b. key a < key b) ys i) [Suc 0..<m] xs ! p)
          \<le> key (fold (\<lambda>i ys. sink_to 0 (\<lambda>a b. key a < key b) ys i) [Suc 0..<m] xs ! q))"
proof (induction m)
  case 0
  then show ?case by simp
next
  case (Suc m)
  let ?f = "\<lambda>i ys. sink_to 0 (\<lambda>a b. key a < key b) ys i"
  let ?ys = "fold ?f [Suc 0..<m] xs"
  show ?case
  proof (cases "m = 0")
    case True
    then show ?thesis by simp
  next
    case False
    then have up: "[Suc 0..<Suc m] = [Suc 0..<m] @ [m]" by simp
    have len: "length ?ys = length xs"
      by simp
    have IH: "\<forall>p q. p \<le> q \<and> q < m \<longrightarrow> key (?ys ! p) \<le> key (?ys ! q)"
      using Suc by simp
    have "\<forall>p q. p \<le> q \<and> q \<le> m \<longrightarrow> key (sink_to 0 (\<lambda>a b. key a < key b) ?ys m ! p)
              \<le> key (sink_to 0 (\<lambda>a b. key a < key b) ?ys m ! q)"
    proof (rule sink_to_sorted)
      show "m < length ?ys" using len Suc.prems by simp
      show "m \<le> m" by simp
      show "\<forall>p q. p \<le> q \<and> q \<le> m \<and> p \<noteq> m \<and> q \<noteq> m \<longrightarrow> key (?ys ! p) \<le> key (?ys ! q)"
        using IH by auto
      show "\<forall>q. m < q \<and> q \<le> m \<longrightarrow> key (?ys ! m) \<le> key (?ys ! q)" by simp
    qed
    then show ?thesis unfolding up by (simp add: less_Suc_eq_le)
  qed
qed

lemma insertionSort_sorted:
  fixes key :: "'a \<Rightarrow> int"
  shows "sorted (map key (insertionSort (\<lambda>a b. key a < key b) xs))"
proof -
  let ?zs = "insertionSort (\<lambda>a b. key a < key b) xs"
  have len: "length ?zs = length xs"
    unfolding insertionSort_def insertionSort_func_def by simp
  have "\<forall>p q. p \<le> q \<and> q < length xs \<longrightarrow> key (?zs ! p) \<le> key (?zs ! q)"
    unfolding insertionSort_def insertionSort_func_def by (rule fold_sink_sorted) simp
  then show ?thesis
    by (auto simp: sorted_iff_nth_mono len)
qed

lemma insertionSort_meets_spec: "sort_Slice_spec insertionSort"
  by (simp add: sort_Slice_spec_def insertionSort_mset insertionSort_sorted)

lemma sort_Slice_short:
  "length xs \<le> 12 \<Longrightarrow> sort_Slice rnd lt xs = insertionSort lt xs"
  by (simp add: sort_Slice_def pdqsort_func_def insertionSort_def pdqsort_loop.simps)

lemma insertionSort_two:
  fixes key :: "'a \<Rightarrow> int"
  assumes "key b < key a"
  shows "insertionSort (\<lambda>a b. key a < key b) [a, b] = [b, a]"
  using assms
  by (simp add: insertionSort_def insertionSort_func_def swap_def)


lemma mset_pair_cases:
  "mset ps = mset [a, b] \<Longrightarrow> ps = [a, b] \<or> ps = [b, a]"
proof -
  assume h: "mset ps = mset [a, b]"
  then have "length ps = 2"
    by (metis length_Cons list.size(3) numeral_2_eq_2 size_mset)
  then obtain x y where ps: "ps = [x, y]"
    by (metis (no_types, opaque_lifting) length_0_conv length_Suc_conv numeral_2_eq_2)
  with h show ?thesis
    by (auto simp: add_eq_conv_ex)
qed

lemma sort_Slice_thirteen:
  fixes key :: "'a \<Rightarrow> int"
  assumes "map key [e0, e1, e2, e3, e4, e5, e6, e7, e8, e9, e10, e11, e12]
             = [1, 1, 1, 1, 1, 1, 1, 1, 1, 1, 1, 1, 0]"
  shows "sort_Slice rnd (\<lambda>a b. key a < key b) [e0, e1, e2, e3, e4, e5, e6, e7, e8, e9, e10, e11, e12]
           = [e12, e6, e2, e3, e4, e5, e0, e7, e8, e9, e10, e11, e1]"
proof -
  let ?lt = "\<lambda>a b. key a < key b"
  let ?xs = "[e0, e1, e2, e3, e4, e5, e6, e7, e8, e9, e10, e11, e12]"
  let ?ys = "[e12, e6, e2, e3, e4, e5, e0, e7, e8, e9, e10, e11, e1]"
  from assms have k: "key e0 = 1" "key e1 = 1" "key e2 = 1" "key e3 = 1" "key e4 = 1"
    "key e5 = 1" "key e6 = 1" "key e7 = 1" "key e8 = 1" "key e9 = 1" "key e10 = 1"
    "key e11 = 1" "key e12 = 0"
    by simp_all
  have cp: "choosePivot_func ?lt ?xs 0 13 = (6, increasingHint)"
    by (simp add: choosePivot_func_def median_func_def order2_func_def Let_def k)
  have so: "skip_ordered ?lt ?xs (Suc 0) 13 = 12"
    by (simp add: skip_ordered.simps k)
  have pis: "partialInsertionSort_func ?lt ?xs 0 13 = (?xs, False)"
    using partialInsertionSort_loop.simps(2) [of ?lt ?xs 0 13 "Suc 0" 4]
    by (simp add: partialInsertionSort_func_def so)
  have sl: "scan_less ?lt (swap ?xs 0 6) 0 (Suc 0) 12 = Suc 0"
    by (simp add: scan_less.simps swap_def k)
  have snl: "scan_not_less ?lt (swap ?xs 0 6) 0 (Suc 0) 12 = 12"
    by (simp add: swap_def k eval_nat_numeral)
  have pl: "partition_loop ?lt (swap (swap ?xs 0 6) (Suc 0) 12) 0 (Suc (Suc 0)) 11
              = (swap (swap ?xs 0 6) (Suc 0) 12, Suc 0)"
    by (simp add: partition_loop.simps scan_less.simps swap_def k eval_nat_numeral Let_def)
  have pt: "partition_func ?lt ?xs 0 13 6 = (?ys, Suc 0, False)"
    by (simp add: partition_func_def sl snl pl Let_def) (simp add: swap_def)
  have left: "pdqsort_loop rnd ?lt ?ys 0 (Suc 0) 4 True True = ?ys"
    by (simp add: pdqsort_loop.simps insertionSort_func_def)
  have right: "pdqsort_loop rnd ?lt ?ys (Suc (Suc 0)) 13 4 True False = ?ys"
    by (simp add: pdqsort_loop.simps insertionSort_func_def upt_rec_numeral k eval_nat_numeral)
  have bl: "bits_Len 13 = 4"
    by simp
  have len: "length ?xs = 13"
    by simp
  show ?thesis
    unfolding sort_Slice_def pdqsort_func_def len
    by (subst pdqsort_loop.simps) (simp add: bl cp pis k pt left right Let_def del: bits_Len.simps)
qed

lemma identifycheck_neq_deny:
  "(identifycheck P :: (unit, unit) VicgPlugin) \<noteq> deny_plugin n code"
proof
  assume "(identifycheck P :: (unit, unit) VicgPlugin) = deny_plugin n code"
  then have "HandleHTTPMessage (identifycheck P :: (unit, unit) VicgPlugin) ()
                 (start_state token_request (token_env ''01234567890123456789''))
           = HandleHTTPMessage (deny_plugin n code) ()
                 (start_state token_request (token_env ''01234567890123456789''))"
    by simp
  then show False
    by (simp add: identifycheck_at_start token_request_header) (simp add: deny_plugin_def)
qed

text \<open>
  C1, as the code has it. Provided \<open>sort.Slice\<close> keeps its documented promise, the
  plugin list that the pipeline captures is the list of the plugins constructed from the
  declarations, rearranged so that priorities do not decrease. For an endpoint that
  declares two plugins, \<open>A\<close> before \<open>B\<close>, with the priority of \<open>B\<close> below that of \<open>A\<close>,
  the list is \<open>B, A\<close> and every execution calls \<open>B\<close> first, then \<open>A\<close> unless \<open>B\<close> fails.
  Nothing is said about the order of plugins with equal priority.
\<close>

theorem New_plugins_sorted_by_priority:
  assumes "sort_Slice_spec srt"
      and "New_plugins srt pf cfg ifr = Inr ps"
  shows "sorted (map Priority ps)
       \<and> (\<exists>qs. create_plugins pf (Plugins cfg) ifr = Inr qs \<and> mset ps = mset qs)
       \<and> (\<forall>a b. create_plugins pf (Plugins cfg) ifr = Inr [a, b] \<and> Priority b < Priority a
            \<longrightarrow> ps = [b, a]
              \<and> calls (pipeline ps ctx req e)
                  = b # (if fst (HandleHTTPMessage b ctx (start_state req e)) = None
                         then [a] else []))"
proof -
  from assms(2) obtain qs where qs: "create_plugins pf (Plugins cfg) ifr = Inr qs"
    and ps: "ps = srt (\<lambda>p q. Priority p < Priority q) qs"
    by (auto simp: New_plugins_def split: sum.splits)
  from assms(1) have m: "mset ps = mset qs" and s: "sorted (map Priority ps)"
    unfolding ps sort_Slice_spec_def by blast+
  have two: "ps = [b, a] \<and> calls (pipeline ps ctx req e)
                  = b # (if fst (HandleHTTPMessage b ctx (start_state req e)) = None
                         then [a] else [])"
    if "create_plugins pf (Plugins cfg) ifr = Inr [a, b]" and "Priority b < Priority a" for a b
  proof -
    from that(1) qs have "qs = [a, b]" by simp
    with m have "ps = [a, b] \<or> ps = [b, a]" by (simp add: mset_pair_cases)
    with s that(2) have "ps = [b, a]" by auto
    then show ?thesis
      by (auto simp: pipeline_def Let_def split: prod.splits option.splits)
  qed
  from s m qs two show ?thesis by blast
qed

text \<open>
  The endpoint that declares \<open>A\<close> (priority 10) before \<open>B\<close> (priority 1). Insertion sort
  keeps the promise of \<open>sort.Slice\<close>, and it is what \<open>sort.Slice\<close> runs on these two
  plugins, whatever the step of its pseudo-random generator.
\<close>

theorem New_plugins_sorted_by_priority_witness:
  "sort_Slice_spec (insertionSort ::
       ((unit, unit) VicgPlugin \<Rightarrow> (unit, unit) VicgPlugin \<Rightarrow> bool) \<Rightarrow> _)
 \<and> create_plugins two_factory (Plugins ab_endpoint) ()
     = Inr [deny_plugin 10 403, identifycheck \<lparr>name = ''IdentifyCheck'', index = 1, infra = ()\<rparr>]
 \<and> New_plugins insertionSort two_factory ab_endpoint ()
     = Inr [identifycheck \<lparr>name = ''IdentifyCheck'', index = 1, infra = ()\<rparr>, deny_plugin 10 403]
 \<and> (\<forall>rnd. New_plugins (sort_Slice rnd) two_factory ab_endpoint ()
     = Inr [identifycheck \<lparr>name = ''IdentifyCheck'', index = 1, infra = ()\<rparr>, deny_plugin 10 403])
 \<and> sorted (map Priority
       [identifycheck \<lparr>name = ''IdentifyCheck'', index = 1, infra = ()\<rparr>,
        deny_plugin 10 403 :: (unit, unit) VicgPlugin])
 \<and> calls (pipeline [identifycheck \<lparr>name = ''IdentifyCheck'', index = 1, infra = ()\<rparr>,
                     deny_plugin 10 403] () token_request (token_env ''01234567890123456789''))
     = [identifycheck \<lparr>name = ''IdentifyCheck'', index = 1, infra = ()\<rparr>, deny_plugin 10 403]"
proof -
  let ?B = "identifycheck \<lparr>name = ''IdentifyCheck'', index = 1, infra = ()\<rparr>
              :: (unit, unit) VicgPlugin"
  let ?A = "deny_plugin 10 403 :: (unit, unit) VicgPlugin"
  let ?e = "token_env ''01234567890123456789''"
  have spec: "sort_Slice_spec (insertionSort ::
       ((unit, unit) VicgPlugin \<Rightarrow> (unit, unit) VicgPlugin \<Rightarrow> bool) \<Rightarrow> _)"
    by (rule insertionSort_meets_spec)
  have built: "create_plugins two_factory (Plugins ab_endpoint) () = Inr [?A, ?B]"
    by (simp add: ab_endpoint_def two_factory_def createNewPlugin_def getPluginFactory_def
        identifycheck_New_def deny_New_def)
  have prio: "Priority ?B < Priority ?A"
    by (simp add: identifycheck_def identifycheck_Priority_def deny_plugin_def)
  have sorted: "New_plugins insertionSort two_factory ab_endpoint () = Inr [?B, ?A]"
    using insertionSort_two [of Priority ?B ?A, OF prio] by (simp add: New_plugins_def built)
  have run: "New_plugins (sort_Slice rnd) two_factory ab_endpoint () = Inr [?B, ?A]" for rnd
    using insertionSort_two [of Priority ?B ?A, OF prio]
    by (simp add: New_plugins_def built sort_Slice_short)
  have ok: "fst (HandleHTTPMessage ?B () (start_state token_request ?e)) = None"
    by (simp add: identifycheck_at_start token_request_header)
  note t = New_plugins_sorted_by_priority [OF spec sorted, of "()" token_request ?e]
  from t built prio have "calls (pipeline [?B, ?A] () token_request ?e)
      = ?B # (if fst (HandleHTTPMessage ?B () (start_state token_request ?e)) = None
              then [?A] else [])"
    by blast
  with ok have c: "calls (pipeline [?B, ?A] () token_request ?e) = [?B, ?A]"
    by simp
  from t have s: "sorted (map Priority [?B, ?A])"
    by blast
  from spec built sorted run s c show ?thesis
    by blast
qed

text \<open>
  C1 as the claim states it fails. The endpoint \<open>tie_endpoint\<close> declares thirteen
  plugins: \<open>Deny\<close> with priority 1, then eleven identity checks with priority 1, then an
  identity check with priority 0. \<open>sort.Slice\<close>, whatever the step of its pseudo-random
  generator, leaves a list sorted by priority in which five of the identity checks of
  priority 1 stand before \<open>Deny\<close>: the plugins of priority 1 are no longer in
  declaration order. An execution on a request that passes the identity check calls six
  identity checks and then \<open>Deny\<close>, where the declaration order among equal priorities
  would call \<open>Deny\<close> right after the identity check of priority 0.
\<close>

theorem equal_priorities_reordered:
  "create_plugins two_factory (Plugins tie_endpoint) ()
     = Inr [deny_plugin 1 403,
            identifycheck \<lparr>name = ''IdentifyCheck'', index = 1, infra = ()\<rparr>,
            identifycheck \<lparr>name = ''IdentifyCheck'', index = 1, infra = ()\<rparr>,
            identifycheck \<lparr>name = ''IdentifyCheck'', index = 1, infra = ()\<rparr>,
            identifycheck \<lparr>name = ''IdentifyCheck'', index = 1, infra = ()\<rparr>,
            identifycheck \<lparr>name = ''IdentifyCheck'', index = 1, infra = ()\<rparr>,
            identifycheck \<lparr>name = ''IdentifyCheck'', index = 1, infra = ()\<rparr>,
            identifycheck \<lparr>name = ''IdentifyCheck'', index = 1, infra = ()\<rparr>,
            identifycheck \<lparr>name = ''IdentifyCheck'', index = 1, infra = ()\<rparr>,
            identifycheck \<lparr>name = ''IdentifyCheck'', index = 1, infra = ()\<rparr>,
            identifycheck \<lparr>name = ''IdentifyCheck'', index = 1, infra = ()\<rparr>,
            identifycheck \<lparr>name = ''IdentifyCheck'', index = 1, infra = ()\<rparr>,
            identifycheck \<lparr>name = ''IdentifyCheck'', index = 0, infra = ()\<rparr>]
 \<and> (\<forall>rnd. New_plugins (sort_Slice rnd) two_factory tie_endpoint ()
     = Inr [identifycheck \<lparr>name = ''IdentifyCheck'', index = 0, infra = ()\<rparr>,
            identifycheck \<lparr>name = ''IdentifyCheck'', index = 1, infra = ()\<rparr>,
            identifycheck \<lparr>name = ''IdentifyCheck'', index = 1, infra = ()\<rparr>,
            identifycheck \<lparr>name = ''IdentifyCheck'', index = 1, infra = ()\<rparr>,
            identifycheck \<lparr>name = ''IdentifyCheck'', index = 1, infra = ()\<rparr>,
            identifycheck \<lparr>name = ''IdentifyCheck'', index = 1, infra = ()\<rparr>,
            deny_plugin 1 403,
            identifycheck \<lparr>name = ''IdentifyCheck'', index = 1, infra = ()\<rparr>,
            identifycheck \<lparr>name = ''IdentifyCheck'', index = 1, infra = ()\<rparr>,
            identifycheck \<lparr>name = ''IdentifyCheck'', index = 1, infra = ()\<rparr>,
            identifycheck \<lparr>name = ''IdentifyCheck'', index = 1, infra = ()\<rparr>,
            identifycheck \<lparr>name = ''IdentifyCheck'', index = 1, infra = ()\<rparr>,
            identifycheck \<lparr>name = ''IdentifyCheck'', index = 1, infra = ()\<rparr>])
 \<and> sorted (map Priority
       [identifycheck \<lparr>name = ''IdentifyCheck'', index = 0, infra = ()\<rparr>,
        identifycheck \<lparr>name = ''IdentifyCheck'', index = 1, infra = ()\<rparr>,
        identifycheck \<lparr>name = ''IdentifyCheck'', index = 1, infra = ()\<rparr>,
        identifycheck \<lparr>name = ''IdentifyCheck'', index = 1, infra = ()\<rparr>,
        identifycheck \<lparr>name = ''IdentifyCheck'', index = 1, infra = ()\<rparr>,
        identifycheck \<lparr>name = ''IdentifyCheck'', index = 1, infra = ()\<rparr>,
        deny_plugin 1 403 :: (unit, unit) VicgPlugin,
        identifycheck \<lparr>name = ''IdentifyCheck'', index = 1, infra = ()\<rparr>,
        identifycheck \<lparr>name = ''IdentifyCheck'', index = 1, infra = ()\<rparr>,
        identifycheck \<lparr>name = ''IdentifyCheck'', index = 1, infra = ()\<rparr>,
        identifycheck \<lparr>name = ''IdentifyCheck'', index = 1, infra = ()\<rparr>,
        identifycheck \<lparr>name = ''IdentifyCheck'', index = 1, infra = ()\<rparr>,
        identifycheck \<lparr>name = ''IdentifyCheck'', index = 1, infra = ()\<rparr>])
 \<and> filter (\<lambda>p. Priority p = 1)
       [identifycheck \<lparr>name = ''IdentifyCheck'', index = 0, infra = ()\<rparr>,
        identifycheck \<lparr>name = ''IdentifyCheck'', index = 1, infra = ()\<rparr>,
        identifycheck \<lparr>name = ''IdentifyCheck'', index = 1, infra = ()\<rparr>,
        identifycheck \<lparr>name = ''IdentifyCheck'', index = 1, infra = ()\<rparr>,
        identifycheck \<lparr>name = ''IdentifyCheck'', index = 1, infra = ()\<rparr>,
        identifycheck \<lparr>name = ''IdentifyCheck'', index = 1, infra = ()\<rparr>,
        deny_plugin 1 403,
        identifycheck \<lparr>name = ''IdentifyCheck'', index = 1, infra = ()\<rparr>,
        identifycheck \<lparr>name = ''IdentifyCheck'', index = 1, infra = ()\<rparr>,
        identifycheck \<lparr>name = ''IdentifyCheck'', index = 1, infra = ()\<rparr>,
        identifycheck \<lparr>name = ''IdentifyCheck'', index = 1, infra = ()\<rparr>,
        identifycheck \<lparr>name = ''IdentifyCheck'', index = 1, infra = ()\<rparr>,
        identifycheck \<lparr>name = ''IdentifyCheck'', index = 1, infra = ()\<rparr>]
     \<noteq> filter (\<lambda>p. Priority p = 1)
       [deny_plugin 1 403 :: (unit, unit) VicgPlugin,
        identifycheck \<lparr>name = ''IdentifyCheck'', index = 1, infra = ()\<rparr>,
        identifycheck \<lparr>name = ''IdentifyCheck'', index = 1, infra = ()\<rparr>,
        identifycheck \<lparr>name = ''IdentifyCheck'', index = 1, infra = ()\<rparr>,
        identifycheck \<lparr>name = ''IdentifyCheck'', index = 1, infra = ()\<rparr>,
        identifycheck \<lparr>name = ''IdentifyCheck'', index = 1, infra = ()\<rparr>,
        identifycheck \<lparr>name = ''IdentifyCheck'', index = 1, infra = ()\<rparr>,
        identifycheck \<lparr>name = ''IdentifyCheck'', index = 1, infra = ()\<rparr>,
        identifycheck \<lparr>name = ''IdentifyCheck'', index = 1, infra = ()\<rparr>,
        identifycheck \<lparr>name = ''IdentifyCheck'', index = 1, infra = ()\<rparr>,
        identifycheck \<lparr>name = ''IdentifyCheck'', index = 1, infra = ()\<rparr>,
        identifycheck \<lparr>name = ''IdentifyCheck'', index = 1, infra = ()\<rparr>,
        identifycheck \<lparr>name = ''IdentifyCheck'', index = 0, infra = ()\<rparr>]
 \<and> calls (pipeline
       [identifycheck \<lparr>name = ''IdentifyCheck'', index = 0, infra = ()\<rparr>,
        identifycheck \<lparr>name = ''IdentifyCheck'', index = 1, infra = ()\<rparr>,
        identifycheck \<lparr>name = ''IdentifyCheck'', index = 1, infra = ()\<rparr>,
        identifycheck \<lparr>name = ''IdentifyCheck'', index = 1, infra = ()\<rparr>,
        identifycheck \<lparr>name = ''IdentifyCheck'', index = 1, infra = ()\<rparr>,
        identifycheck \<lparr>name = ''IdentifyCheck'', index = 1, infra = ()\<rparr>,
        deny_plugin 1 403,
        identifycheck \<lparr>name = ''IdentifyCheck'', index = 1, infra = ()\<rparr>,
        identifycheck \<lparr>name = ''IdentifyCheck'', index = 1, infra = ()\<rparr>,
        identifycheck \<lparr>name = ''IdentifyCheck'', index = 1, infra = ()\<rparr>,
        identifycheck \<lparr>name = ''IdentifyCheck'', index = 1, infra = ()\<rparr>,
        identifycheck \<lparr>name = ''IdentifyCheck'', index = 1, infra = ()\<rparr>,
        identifycheck \<lparr>name = ''IdentifyCheck'', index = 1, infra = ()\<rparr>]
       () token_request (token_env ''01234567890123456789''))
     = [identifycheck \<lparr>name = ''IdentifyCheck'', index = 0, infra = ()\<rparr>,
        identifycheck \<lparr>name = ''IdentifyCheck'', index = 1, infra = ()\<rparr>,
        identifycheck \<lparr>name = ''IdentifyCheck'', index = 1, infra = ()\<rparr>,
        identifycheck \<lparr>name = ''IdentifyCheck'', index = 1, infra = ()\<rparr>,
        identifycheck \<lparr>name = ''IdentifyCheck'', index = 1, infra = ()\<rparr>,
        identifycheck \<lparr>name = ''IdentifyCheck'', index = 1, infra = ()\<rparr>,
        deny_plugin 1 403]"
proof -
  let ?I = "\<lambda>n. identifycheck \<lparr>name = ''IdentifyCheck'', index = n, infra = ()\<rparr>
              :: (unit, unit) VicgPlugin"
  let ?D = "deny_plugin 1 403 :: (unit, unit) VicgPlugin"
  let ?e = "token_env ''01234567890123456789''"
  let ?qs = "[?D, ?I 1, ?I 1, ?I 1, ?I 1, ?I 1, ?I 1, ?I 1, ?I 1, ?I 1, ?I 1, ?I 1, ?I 0]"
  let ?ps = "[?I 0, ?I 1, ?I 1, ?I 1, ?I 1, ?I 1, ?D, ?I 1, ?I 1, ?I 1, ?I 1, ?I 1, ?I 1]"
  have built: "create_plugins two_factory (Plugins tie_endpoint) () = Inr ?qs"
    by (simp add: tie_endpoint_def two_factory_def createNewPlugin_def getPluginFactory_def
        identifycheck_New_def deny_New_def)
  have p: "Priority (?I n) = n" "Priority ?D = 1" for n
    by (simp_all add: identifycheck_def identifycheck_Priority_def deny_plugin_def)
  have prio: "map Priority ?qs = [1, 1, 1, 1, 1, 1, 1, 1, 1, 1, 1, 1, 0]"
    by (simp add: p)
  have run: "New_plugins (sort_Slice rnd) two_factory tie_endpoint () = Inr ?ps" for rnd
    using sort_Slice_thirteen [OF prio, of rnd] by (simp add: New_plugins_def built)
  have s: "sorted (map Priority ?ps)"
    by (simp add: p)
  have differ: "filter (\<lambda>p. Priority p = 1) ?ps \<noteq> filter (\<lambda>p. Priority p = 1) ?qs"
    using identifycheck_neq_deny [of "\<lparr>name = ''IdentifyCheck'', index = 1, infra = ()\<rparr>" 1 403]
    by (simp add: p)
  have c: "calls (pipeline ?ps () token_request ?e)
      = [?I 0, ?I 1, ?I 1, ?I 1, ?I 1, ?I 1, ?D]"
    by (simp add: pipeline_def identifycheck_at_start token_request_header sec_def Second_def)
       (simp add: deny_plugin_def)
  from built run s differ c show ?thesis
    by blast
qed

section \<open>Writing a response body: the two outcomes\<close>

text \<open>
  C9. If decoding \<open>b\<close> succeeds with the entries \<open>m\<close> of a JSON object, \<open>Write\<close> returns
  \<open>(len(b), nil)\<close> and makes \<open>resp.Data\<close> a new map holding exactly \<open>m\<close>; no other field
  of the response and no object that existed before changes. If decoding fails with
  \<open>e\<close>, \<open>Write\<close> returns \<open>(0, e)\<close>, the response is as it was, and so is every object
  that existed before, the old \<open>Data\<close> map among them.
\<close>

theorem Write_replaces_or_keeps_Data:
  "(unmarshal b = Inr (Some m) \<longrightarrow>
      Write unmarshal b resp h
        = ((int (length b), None), resp\<lparr>Data_resp := Some (length h)\<rparr>, h @ [AnyMapObj m])
    \<and> get_anymap (snd (snd (Write unmarshal b resp h)))
          (Data_resp (fst (snd (Write unmarshal b resp h)))) = m
    \<and> deref h (length h) = None)
 \<and> (unmarshal b = Inl e \<longrightarrow>
      fst (Write unmarshal b resp h) = (0, Some e)
    \<and> fst (snd (Write unmarshal b resp h)) = resp
    \<and> take (length h) (snd (snd (Write unmarshal b resp h))) = h
    \<and> get_anymap (snd (snd (Write unmarshal b resp h))) (Data_resp resp)
        = get_anymap h (Data_resp resp))"
  by (auto simp: Write_def alloc_def get_anymap_def deref_def nth_append split: option.splits)

theorem Write_replaces_or_keeps_Data_witness:
  "two_document_decoder ''{}'' = Inr (Some [])
 \<and> Write two_document_decoder ''{}''
       \<lparr>Data_resp = Some 0, IsComplete = True, Metadata = \<lparr>Headers_md = None, StatusCode = 200\<rparr>\<rparr>
       [AnyMapObj [(''old'', VInt 1)]]
     = ((2, None),
        \<lparr>Data_resp = Some 1, IsComplete = True, Metadata = \<lparr>Headers_md = None, StatusCode = 200\<rparr>\<rparr>,
        [AnyMapObj [(''old'', VInt 1)], AnyMapObj []])
 \<and> two_document_decoder ''{'' = Inl ''invalid character''
 \<and> fst (Write two_document_decoder ''{''
       \<lparr>Data_resp = Some 0, IsComplete = True, Metadata = \<lparr>Headers_md = None, StatusCode = 200\<rparr>\<rparr>
       [AnyMapObj [(''old'', VInt 1)]])
     = (0, Some ''invalid character'')
 \<and> get_anymap (snd (snd (Write two_document_decoder ''{''
       \<lparr>Data_resp = Some 0, IsComplete = True, Metadata = \<lparr>Headers_md = None, StatusCode = 200\<rparr>\<rparr>
       [AnyMapObj [(''old'', VInt 1)]]))) (Some 0)
     = [(''old'', VInt 1)]"
proof -
  let ?resp = "\<lparr>Data_resp = Some 0, IsComplete = True,
                 Metadata = \<lparr>Headers_md = None, StatusCode = 200\<rparr>\<rparr>"
  let ?h = "[AnyMapObj [(''old'', VInt 1)]]"
  have good: "two_document_decoder ''{}'' = Inr (Some [])"
    by (simp add: two_document_decoder_def)
  have bad: "two_document_decoder ''{'' = Inl ''invalid character''"
    by (simp add: two_document_decoder_def)
  have old: "get_anymap ?h (Some 0) = [(''old'', VInt 1)]"
    by (simp add: get_anymap_def deref_def)
  note g = Write_replaces_or_keeps_Data [of two_document_decoder "''{}''" "[]" ?resp ?h]
  note f = Write_replaces_or_keeps_Data
             [of two_document_decoder "''{''" _ ?resp ?h "''invalid character''"]
  from g good have 1: "Write two_document_decoder ''{}'' ?resp ?h
      = ((2, None), ?resp\<lparr>Data_resp := Some 1\<rparr>, ?h @ [AnyMapObj []])"
    by simp
  from f bad have 2: "fst (Write two_document_decoder ''{'' ?resp ?h) = (0, Some ''invalid character'')
      \<and> get_anymap (snd (snd (Write two_document_decoder ''{'' ?resp ?h))) (Some 0)
          = get_anymap ?h (Some 0)"
    by simp
  from 1 2 good bad old show ?thesis
    by simp
qed

section \<open>What cloning a request shares and changes\<close>

lemma put_values_length [simp]: "length (put_values h a k vs) = length h"
  by (auto simp: put_values_def split: option.splits obj.splits)

lemma put_values_other: "x \<noteq> a \<Longrightarrow> put_values h a k vs ! x = h ! x"
  by (auto simp: put_values_def split: option.splits obj.splits)

lemma put_params_length [simp]: "length (put_params h a k v) = length h"
  by (auto simp: put_params_def split: option.splits obj.splits)

lemma put_params_other: "x \<noteq> a \<Longrightarrow> put_params h a k v ! x = h ! x"
  by (auto simp: put_params_def split: option.splits obj.splits)

lemma fold_put_values:
  "length (fold (\<lambda>(k, vs) h'. put_values h' a k vs) es h) = length h
 \<and> (\<forall>x. x \<noteq> a \<longrightarrow> fold (\<lambda>(k, vs) h'. put_values h' a k vs) es h ! x = h ! x)"
  by (induction es arbitrary: h) (auto simp: put_values_other)

lemma fold_put_params:
  "length (fold (\<lambda>(k, v) h'. put_params h' a k v) es h) = length h
 \<and> (\<forall>x. x \<noteq> a \<longrightarrow> fold (\<lambda>(k, v) h'. put_params h' a k v) es h ! x = h ! x)"
  by (induction es arbitrary: h) (auto simp: put_params_other)

lemma CloneRequestHeaders_heap:
  "fst (CloneRequestHeaders h hs) = Some (length h)
 \<and> length (snd (CloneRequestHeaders h hs)) = Suc (length h)
 \<and> (\<forall>x < length h. snd (CloneRequestHeaders h hs) ! x = h ! x)"
  using fold_put_values [of "length h" "get_values h hs" "h @ [ValuesObj []]"]
  by (simp add: CloneRequestHeaders_def alloc_def nth_append)

lemma CloneRequestParams_heap:
  "fst (CloneRequestParams h ps) = Some (length h)
 \<and> length (snd (CloneRequestParams h ps)) = Suc (length h)
 \<and> (\<forall>x < length h. snd (CloneRequestParams h ps) ! x = h ! x)"
  using fold_put_params [of "length h" "get_params h ps" "h @ [ParamsObj []]"]
  by (simp add: CloneRequestParams_def alloc_def nth_append)

lemma maps_cloned_heap:
  "length (maps_cloned h r) = Suc (Suc (length h))
 \<and> (\<forall>x < length h. maps_cloned h r ! x = h ! x)"
  using CloneRequestHeaders_heap [of h "Headers r"]
    CloneRequestParams_heap [of "snd (CloneRequestHeaders h (Headers r))" "Params r"]
  by (simp add: maps_cloned_def)

lemma CloneRequest_nil_body:
  "Body r = None \<Longrightarrow>
     CloneRequest h r
       = ((Clone r)\<lparr>Headers := Some (length h), Params := Some (Suc (length h))\<rparr>, r,
          maps_cloned h r)"
  using CloneRequestHeaders_heap [of h "Headers r"]
    CloneRequestParams_heap [of "snd (CloneRequestHeaders h (Headers r))" "Params r"]
  by (simp add: CloneRequest_def maps_cloned_def Let_def split_beta)

lemma ReadFrom_length [simp]: "length (snd (ReadFrom h a)) = length h"
  by (auto simp: ReadFrom_def split: option.splits obj.splits)

lemma ReadFrom_other: "x \<noteq> a \<Longrightarrow> snd (ReadFrom h a) ! x = h ! x"
  by (auto simp: ReadFrom_def split: option.splits obj.splits)

lemma Close_length [simp]: "length (Close h a) = length h"
  by (auto simp: Close_def split: option.splits obj.splits)

lemma Close_other: "x \<noteq> a \<Longrightarrow> Close h a ! x = h ! x"
  by (auto simp: Close_def split: option.splits obj.splits)

lemma CloneRequest_with_body:
  assumes "Body r = Some a"
  shows "CloneRequest h r
       = ((Clone r)\<lparr>Headers := Some (length h), Params := Some (Suc (length h)),
                    Body := Some (length h + 3)\<rparr>,
          r\<lparr>Body := Some (length h + 2)\<rparr>,
          Close (snd (ReadFrom (maps_cloned h r) a)) a
            @ [NopCloserObj (fst (ReadFrom (maps_cloned h r) a)),
               NopCloserObj (fst (ReadFrom (maps_cloned h r) a))])"
proof -
  let ?h2 = "maps_cloned h r"
  have len: "length ?h2 = Suc (Suc (length h))"
    using maps_cloned_heap [of h r] by simp
  have hd: "fst (CloneRequestHeaders h (Headers r)) = Some (length h)"
    using CloneRequestHeaders_heap [of h "Headers r"] by simp
  have pr: "fst (CloneRequestParams (snd (CloneRequestHeaders h (Headers r))) (Params r))
              = Some (Suc (length h))"
    using CloneRequestHeaders_heap [of h "Headers r"]
      CloneRequestParams_heap [of "snd (CloneRequestHeaders h (Headers r))" "Params r"]
    by simp
  have h2: "snd (CloneRequestParams (snd (CloneRequestHeaders h (Headers r))) (Params r)) = ?h2"
    by (simp add: maps_cloned_def)
  show ?thesis
    by (simp add: CloneRequest_def Let_def split_beta assms hd pr h2 alloc_def len
        numeral_3_eq_3 numeral_2_eq_2)
qed

lemma maps_cloned_take: "take (length h) (maps_cloned h r) = h"
  using maps_cloned_heap [of h r] by (auto simp: list_eq_iff_nth_eq)

text \<open>What the body reader at \<open>a\<close> gives and how it is left, by the state it was in.\<close>

lemma rebuffer_open:
  assumes "deref h a = Some (ReaderObj d False None)"
  shows "fst (ReadFrom (maps_cloned h r) a) = d"
    and "Close (snd (ReadFrom (maps_cloned h r) a)) a ! a = ReaderObj [] True None"
  using assms maps_cloned_heap [of h r]
  by (auto simp: ReadFrom_def Close_def deref_def split: if_splits)

lemma rebuffer_nop:
  assumes "deref h a = Some (NopCloserObj d)"
  shows "fst (ReadFrom (maps_cloned h r) a) = d"
    and "Close (snd (ReadFrom (maps_cloned h r) a)) a ! a = NopCloserObj []"
  using assms maps_cloned_heap [of h r]
  by (auto simp: ReadFrom_def Close_def deref_def split: if_splits)

lemma rebuffer_closed:
  assumes "deref h a = Some (ReaderObj d True f)"
  shows "fst (ReadFrom (maps_cloned h r) a) = []"
    and "Close (snd (ReadFrom (maps_cloned h r) a)) a ! a = ReaderObj d True f"
  using assms maps_cloned_heap [of h r]
  by (auto simp: ReadFrom_def Close_def deref_def split: if_splits)

lemma rebuffer_broken:
  assumes "deref h a = Some (ReaderObj d False (Some n))"
  shows "fst (ReadFrom (maps_cloned h r) a) = take n d"
    and "Close (snd (ReadFrom (maps_cloned h r) a)) a ! a = ReaderObj (drop n d) True (Some 0)"
  using assms maps_cloned_heap [of h r]
  by (auto simp: ReadFrom_def Close_def deref_def split: if_splits)

text \<open>
  C10, as the code has it. When \<open>r.Body\<close> is nil, \<open>CloneRequest\<close> leaves \<open>r\<close> as it is,
  and every object that existed before as well. When \<open>r.Body\<close> is not nil, \<open>r.Body\<close>
  becomes a reader allocated by the call, every other field of \<open>r\<close> is as before, and so
  is every object that existed before other than the body reader. The new reader holds
  what the body reader delivered:

    \<^item> all its unread bytes \<open>d\<close> when the body reader is open and can be read to its end;
      the body reader is then left exhausted and closed;

    \<^item> all its unread bytes when it is an \<open>io.NopCloser\<close> (as the bodies that
      \<open>CloneRequest\<close> installs are); it is left exhausted;

    \<^item> nothing when the body reader was already closed; its unread bytes stay unread;

    \<^item> the first \<open>n\<close> bytes when its source breaks after \<open>n\<close> bytes; the others stay
      unread in the body reader, which is closed.
\<close>

theorem CloneRequest_rebuffers_Body:
  "(Body r = None \<longrightarrow>
      fst (snd (CloneRequest h r)) = r
    \<and> take (length h) (snd (snd (CloneRequest h r))) = h)
 \<and> (Body r = Some a \<longrightarrow>
      fst (snd (CloneRequest h r)) = r\<lparr>Body := Some (length h + 2)\<rparr>
    \<and> deref h (length h + 2) = None
    \<and> (\<forall>x<length h. x \<noteq> a \<longrightarrow> snd (snd (CloneRequest h r)) ! x = h ! x))
 \<and> (Body r = Some a \<and> deref h a = Some (ReaderObj d False None) \<longrightarrow>
      deref (snd (snd (CloneRequest h r))) (length h + 2) = Some (NopCloserObj d)
    \<and> deref (snd (snd (CloneRequest h r))) a = Some (ReaderObj [] True None))
 \<and> (Body r = Some a \<and> deref h a = Some (NopCloserObj d) \<longrightarrow>
      deref (snd (snd (CloneRequest h r))) (length h + 2) = Some (NopCloserObj d)
    \<and> deref (snd (snd (CloneRequest h r))) a = Some (NopCloserObj []))
 \<and> (Body r = Some a \<and> deref h a = Some (ReaderObj d True f) \<longrightarrow>
      deref (snd (snd (CloneRequest h r))) (length h + 2) = Some (NopCloserObj [])
    \<and> deref (snd (snd (CloneRequest h r))) a = Some (ReaderObj d True f))
 \<and> (Body r = Some a \<and> deref h a = Some (ReaderObj d False (Some n)) \<longrightarrow>
      deref (snd (snd (CloneRequest h r))) (length h + 2) = Some (NopCloserObj (take n d))
    \<and> deref (snd (snd (CloneRequest h r))) a = Some (ReaderObj (drop n d) True (Some 0)))"
proof -
  let ?h2 = "maps_cloned h r"
  let ?buf = "fst (ReadFrom ?h2 a)"
  let ?h4 = "Close (snd (ReadFrom ?h2 a)) a"
  note m = maps_cloned_heap [of h r]
  have nil: "fst (snd (CloneRequest h r)) = r \<and> take (length h) (snd (snd (CloneRequest h r))) = h"
    if "Body r = None"
    using that by (simp add: CloneRequest_nil_body maps_cloned_take)
  have heap: "snd (snd (CloneRequest h r)) = ?h4 @ [NopCloserObj ?buf, NopCloserObj ?buf]"
    and req: "fst (snd (CloneRequest h r)) = r\<lparr>Body := Some (length h + 2)\<rparr>"
    if "Body r = Some a"
    using CloneRequest_with_body [OF that, of h] by simp_all
  have len4: "length ?h4 = length h + 2"
    using m by simp
  have new: "deref (snd (snd (CloneRequest h r))) (length h + 2) = Some (NopCloserObj ?buf)"
    if "Body r = Some a"
    using heap [OF that] len4 by (simp add: deref_def nth_append)
  have old: "deref (snd (snd (CloneRequest h r))) a = Some (?h4 ! a)"
    if "Body r = Some a" and "a < length h"
    using heap [OF that(1)] len4 that(2) by (simp add: deref_def nth_append)
  have frame: "\<forall>x<length h. x \<noteq> a \<longrightarrow> snd (snd (CloneRequest h r)) ! x = h ! x"
    if "Body r = Some a"
    using heap [OF that] len4 m by (simp add: nth_append Close_other ReadFrom_other)
  have fresh: "deref h (length h + 2) = None"
    by (simp add: deref_def)
  have inh: "a < length h" if "deref h a = Some v" for v
    using that by (auto simp: deref_def split: if_splits)
  show ?thesis
  proof (intro conjI impI)
    assume "Body r = None"
    with nil show "fst (snd (CloneRequest h r)) = r"
      and "take (length h) (snd (snd (CloneRequest h r))) = h"
      by simp_all
  next
    assume "Body r = Some a"
    with req frame fresh show "fst (snd (CloneRequest h r)) = r\<lparr>Body := Some (length h + 2)\<rparr>"
      and "deref h (length h + 2) = None"
      and "\<forall>x<length h. x \<noteq> a \<longrightarrow> snd (snd (CloneRequest h r)) ! x = h ! x"
      by simp_all
  next
    assume b: "Body r = Some a \<and> deref h a = Some (ReaderObj d False None)"
    with new old inh rebuffer_open [of h a d r]
    show "deref (snd (snd (CloneRequest h r))) (length h + 2) = Some (NopCloserObj d)"
      and "deref (snd (snd (CloneRequest h r))) a = Some (ReaderObj [] True None)"
      by simp_all
  next
    assume b: "Body r = Some a \<and> deref h a = Some (NopCloserObj d)"
    with new old inh rebuffer_nop [of h a d r]
    show "deref (snd (snd (CloneRequest h r))) (length h + 2) = Some (NopCloserObj d)"
      and "deref (snd (snd (CloneRequest h r))) a = Some (NopCloserObj [])"
      by simp_all
  next
    assume b: "Body r = Some a \<and> deref h a = Some (ReaderObj d True f)"
    with new old inh rebuffer_closed [of h a d f r]
    show "deref (snd (snd (CloneRequest h r))) (length h + 2) = Some (NopCloserObj [])"
      and "deref (snd (snd (CloneRequest h r))) a = Some (ReaderObj d True f)"
      by simp_all
  next
    assume b: "Body r = Some a \<and> deref h a = Some (ReaderObj d False (Some n))"
    with new old inh rebuffer_broken [of h a d n r]
    show "deref (snd (snd (CloneRequest h r))) (length h + 2) = Some (NopCloserObj (take n d))"
      and "deref (snd (snd (CloneRequest h r))) a = Some (ReaderObj (drop n d) True (Some 0))"
      by simp_all
  qed
qed

lemma maps_cloned_full_request:
  "length h = 8 \<Longrightarrow> h ! 3 = ParamsObj [(''id'', ''7'')]
     \<Longrightarrow> h ! 4 = ValuesObj [(''Accept'', [''text/plain'', ''text/html''])]
     \<Longrightarrow> maps_cloned h full_request
       = h @ [ValuesObj [(''Accept'', [''text/plain'', ''text/html''])],
              ParamsObj [(''id'', ''7'')]]"
  by (simp add: maps_cloned_def CloneRequestHeaders_def CloneRequestParams_def alloc_def
      get_values_def get_params_def put_values_def put_params_def deref_def
      full_request_def nth_append list_update_append)

lemma CloneRequest_full_request:
  "CloneRequest full_heap full_request
     = (\<lparr>Method = ''POST'', URL = Some 0, Query = Some 1, Path = ''/a/7'', Body = Some 11,
         Params = Some 9, Headers = Some 8, Data = None, Private = None, Reserved = None,
         RemoteAddr = ''10.0.0.1:5000'', ContentLength = 0\<rparr>,
        full_request\<lparr>Body := Some 10\<rparr>,
        [URLObj ''http://host/a/7'',
         ValuesObj [(''page'', [''1''])],
         ReaderObj [] True None,
         ParamsObj [(''id'', ''7'')],
         ValuesObj [(''Accept'', [''text/plain'', ''text/html''])],
         DataObj [(''Face'', [[(''k'', VInt 1)]])],
         AnyMapObj [(''user'', VStr ''u'')],
         AnyMapObj [],
         ValuesObj [(''Accept'', [''text/plain'', ''text/html''])],
         ParamsObj [(''id'', ''7'')],
         NopCloserObj ''abc'',
         NopCloserObj ''abc''])"
proof -
  have b: "Body full_request = Some 2"
    by (simp add: full_request_def)
  have m: "maps_cloned full_heap full_request
      = full_heap @ [ValuesObj [(''Accept'', [''text/plain'', ''text/html''])],
                     ParamsObj [(''id'', ''7'')]]"
    by (rule maps_cloned_full_request) (simp_all add: full_heap_def)
  show ?thesis
    unfolding CloneRequest_with_body [OF b] m
    by (simp add: Clone_def full_request_def full_heap_def ReadFrom_def Close_def deref_def)
qed

text \<open>
  The request with every field set, cloned once from its first heap and once more
  from the heap the first call leaves (its body is then the \<open>io.NopCloser\<close> that the
  first call installed), and the request without a body.
\<close>

theorem CloneRequest_rebuffers_Body_witness:
  "Body full_request = Some 2
 \<and> deref full_heap 2 = Some (ReaderObj ''abc'' False None)
 \<and> fst (snd (CloneRequest full_heap full_request)) = full_request\<lparr>Body := Some 10\<rparr>
 \<and> deref (snd (snd (CloneRequest full_heap full_request))) 10 = Some (NopCloserObj ''abc'')
 \<and> deref (snd (snd (CloneRequest full_heap full_request))) 2 = Some (ReaderObj [] True None)
 \<and> Body (full_request\<lparr>Body := Some 10\<rparr>) = Some 10
 \<and> fst (snd (CloneRequest (snd (snd (CloneRequest full_heap full_request)))
                 (full_request\<lparr>Body := Some 10\<rparr>)))
     = full_request\<lparr>Body := Some 14\<rparr>
 \<and> deref (snd (snd (CloneRequest (snd (snd (CloneRequest full_heap full_request)))
                        (full_request\<lparr>Body := Some 10\<rparr>)))) 14
     = Some (NopCloserObj ''abc'')
 \<and> deref (snd (snd (CloneRequest (snd (snd (CloneRequest full_heap full_request)))
                        (full_request\<lparr>Body := Some 10\<rparr>)))) 10
     = Some (NopCloserObj [])
 \<and> Body token_request = None
 \<and> fst (snd (CloneRequest (heap (token_env ''t'')) token_request)) = token_request
 \<and> take 1 (snd (snd (CloneRequest (heap (token_env ''t'')) token_request)))
     = heap (token_env ''t'')"
proof -
  let ?h1 = "snd (snd (CloneRequest full_heap full_request))"
  let ?r1 = "full_request\<lparr>Body := Some 10\<rparr>"
  have b: "Body full_request = Some 2"
    and d: "deref full_heap 2 = Some (ReaderObj ''abc'' False None)"
    by (simp_all add: full_request_def full_heap_def deref_def)
  have n: "Body token_request = None"
    by (simp add: token_request_def)
  have l: "length full_heap = 8" "length (heap (token_env ''t'')) = 1"
    by (simp_all add: full_heap_def token_env_def)
  note t1 = CloneRequest_rebuffers_Body [of full_request full_heap 2 "''abc''"]
  from t1 b d have 1: "fst (snd (CloneRequest full_heap full_request))
        = full_request\<lparr>Body := Some (length full_heap + 2)\<rparr>
      \<and> deref ?h1 (length full_heap + 2) = Some (NopCloserObj ''abc'')
      \<and> deref ?h1 2 = Some (ReaderObj [] True None)"
    by blast
  have b1: "Body ?r1 = Some 10"
    by simp
  have l1: "length ?h1 = 12"
    by (simp add: CloneRequest_full_request)
  from 1 l have d1: "deref ?h1 10 = Some (NopCloserObj ''abc'')"
    by simp
  note t2 = CloneRequest_rebuffers_Body [of ?r1 ?h1 10 "''abc''"]
  from t2 b1 d1 have 2: "fst (snd (CloneRequest ?h1 ?r1)) = ?r1\<lparr>Body := Some (length ?h1 + 2)\<rparr>
      \<and> deref (snd (snd (CloneRequest ?h1 ?r1))) (length ?h1 + 2) = Some (NopCloserObj ''abc'')
      \<and> deref (snd (snd (CloneRequest ?h1 ?r1))) 10 = Some (NopCloserObj [])"
    by blast
  note t3 = CloneRequest_rebuffers_Body [of token_request "heap (token_env ''t'')"]
  from t3 n have 3: "fst (snd (CloneRequest (heap (token_env ''t'')) token_request)) = token_request
      \<and> take (length (heap (token_env ''t'')))
           (snd (snd (CloneRequest (heap (token_env ''t'')) token_request)))
         = heap (token_env ''t'')"
    by blast
  from 1 2 3 b d n b1 show ?thesis
    by (simp add: l l1)
qed

text \<open>
  C10 as the claim states it fails. The same request with a body that was closed before
  the call: its three unread bytes stay unread, and \<open>r.Body\<close> becomes a reader that
  holds nothing. And with a body whose source breaks after one byte: two bytes stay
  unread, and \<open>r.Body\<close> becomes a reader that holds the first byte only. Neither body
  is read to exhaustion.
\<close>

theorem unreadable_Body_not_exhausted:
  "Body full_request = Some 2
 \<and> deref closed_heap 2 = Some (ReaderObj ''abc'' True None)
 \<and> Body (fst (snd (CloneRequest closed_heap full_request))) = Some 10
 \<and> deref (snd (snd (CloneRequest closed_heap full_request))) 10 = Some (NopCloserObj [])
 \<and> deref (snd (snd (CloneRequest closed_heap full_request))) 2
     = Some (ReaderObj ''abc'' True None)
 \<and> deref broken_heap 2 = Some (ReaderObj ''abc'' False (Some 1))
 \<and> Body (fst (snd (CloneRequest broken_heap full_request))) = Some 10
 \<and> deref (snd (snd (CloneRequest broken_heap full_request))) 10 = Some (NopCloserObj ''a'')
 \<and> deref (snd (snd (CloneRequest broken_heap full_request))) 2
     = Some (ReaderObj ''bc'' True (Some 0))"
proof -
  have b: "Body full_request = Some 2"
    by (simp add: full_request_def)
  have mc: "maps_cloned closed_heap full_request
      = closed_heap @ [ValuesObj [(''Accept'', [''text/plain'', ''text/html''])],
                       ParamsObj [(''id'', ''7'')]]"
    by (rule maps_cloned_full_request) (simp_all add: closed_heap_def full_heap_def)
  have mb: "maps_cloned broken_heap full_request
      = broken_heap @ [ValuesObj [(''Accept'', [''text/plain'', ''text/html''])],
                       ParamsObj [(''id'', ''7'')]]"
    by (rule maps_cloned_full_request) (simp_all add: broken_heap_def full_heap_def)
  show ?thesis
    unfolding CloneRequest_with_body [OF b] mc mb
    by (simp add: full_request_def full_heap_def closed_heap_def broken_heap_def
        ReadFrom_def Close_def deref_def)
qed

text \<open>
  C7 does not hold of the code. \<open>CloneRequest\<close> on a request with every field set: the
  clone has new maps for \<open>Headers\<close> and \<open>Params\<close> and a reader of its own, but its \<open>URL\<close>
  and \<open>Query\<close> are the very references of the received request, so that an entry stored
  through the clone's \<open>Query\<close> is read through the received request's \<open>Query\<close>; and its
  \<open>Data\<close>, \<open>Private\<close> and \<open>Reserved\<close> are nil and its \<open>ContentLength\<close> is 0, where the
  received request has three maps and length 3.
\<close>

theorem CloneRequest_shares_URL_and_Query:
  "URL (fst (CloneRequest full_heap full_request)) = URL (fst (snd (CloneRequest full_heap full_request)))
 \<and> URL (fst (CloneRequest full_heap full_request)) = Some 0
 \<and> Query (fst (CloneRequest full_heap full_request))
     = Query (fst (snd (CloneRequest full_heap full_request)))
 \<and> Query (fst (CloneRequest full_heap full_request)) = Some 1
 \<and> get_values (snd (snd (CloneRequest full_heap full_request)))
       (Query (fst (snd (CloneRequest full_heap full_request)))) = [(''page'', [''1''])]
 \<and> (case Query (fst (CloneRequest full_heap full_request)) of
       None \<Rightarrow> False
     | Some q \<Rightarrow>
         get_values (put_values (snd (snd (CloneRequest full_heap full_request))) q ''page'' [''2''])
           (Query (fst (snd (CloneRequest full_heap full_request)))) = [(''page'', [''2''])])
 \<and> Data (fst (CloneRequest full_heap full_request)) = None
 \<and> Private (fst (CloneRequest full_heap full_request)) = None
 \<and> Reserved (fst (CloneRequest full_heap full_request)) = None
 \<and> ContentLength (fst (CloneRequest full_heap full_request)) = 0
 \<and> Data (fst (snd (CloneRequest full_heap full_request))) = Some 5
 \<and> Private (fst (snd (CloneRequest full_heap full_request))) = Some 6
 \<and> Reserved (fst (snd (CloneRequest full_heap full_request))) = Some 7
 \<and> ContentLength (fst (snd (CloneRequest full_heap full_request))) = 3"
  unfolding CloneRequest_full_request
  by (simp add: full_request_def get_values_def put_values_def deref_def)

end
